theory Spec2Isabelle
  imports Main "HOL-Library.Product_Lexorder"
begin

section \<open>Data model\<close>

text \<open>
  The job queue of the Remote Job Executor lives in three PostgreSQL tables
  (\<open>queue\<close>, \<open>job\<close>, \<open>job_log\<close>, see the Prisma schema) and in the in-memory
  objects of class \<open>Job\<close> (\<open>src/classes/job.ts\<close>). Both are modelled, because several
  operations mutate the object first and then write it to the row with \<open>Job.save\<close>.

  A JavaScript value of an optional field is \<open>undefined\<close>, \<open>null\<close> or a value; a nullable
  column is \<open>NULL\<close> or a value. Timestamps are milliseconds (\<open>nat\<close>). Integer columns are
  unbounded integers: PostgreSQL rejects an out-of-range value, it never wraps around.
  Ids, sequence numbers and \<open>keepLogs\<close> (an option of at least 1; 0 turns the cleaning of
  logs off) are natural numbers.
\<close>

datatype 'a js = Undefined | Null | Val 'a

type_synonym time = nat

datatype JobStatus = PENDING | RUNNING | COMPLETED | FAILED | STALLED | CANCELLED

datatype QueueStatus = ACTIVE | PAUSED

text \<open>Table \<open>job\<close>. Columns that share a name with a field of class \<open>Job\<close> carry \<open>_col\<close>.\<close>

record job_row =
  id_col :: nat
  custom_id :: "string option"
  name_col :: string
  command_col :: string
  args_col :: "string list option"
  working_dir :: "string option"
  timeout_col :: "int option"
  std_out :: "string option"
  std_err :: "string option"
  exit_code :: "int option"
  status_col :: JobStatus
  priority_col :: int
  max_attempts :: int
  attempts_made :: int
  created_at :: time
  updated_at :: time
  processed_on :: "time option"
  finished_on :: "time option"
  failed_reason :: "string option"
  stack_trace :: "string option"
  lock_token :: "string option"
  keep_logs :: "nat option"
  queue_id :: nat

text \<open>Table \<open>queue\<close> (the columns the engine reads).\<close>

record queue_row =
  q_id :: nat
  q_name :: string
  q_status :: QueueStatus

text \<open>Table \<open>job_log\<close>; the uuid primary key plays no role and is left out.\<close>

record job_log_row =
  job_id :: nat
  sequence :: nat
  message :: string
  log_created_at :: time

text \<open>
  The database: the three tables in storage order, the serial counter of \<open>job.id\<close>, and the
  payloads published with \<open>pg_notify('new_job', ...)\<close>, oldest first. Every transaction of
  the source is one atomic step on this state.
\<close>

record database =
  queue_tbl :: "queue_row list"
  job_tbl :: "job_row list"
  job_log_tbl :: "job_log_row list"
  job_id_seq :: nat
  notifications :: "string list"

text \<open>Class \<open>Job\<close>. The field \<open>id\<close> is written \<open>id'\<close>.\<close>

record Job =
  id' :: "nat js"
  customId :: "string js"
  name :: string
  command :: string
  args :: "string list js"
  workingDir :: "string js"
  timeout :: "int js"
  status :: JobStatus
  priority :: int
  stdOut :: "string js"
  stdErr :: "string js"
  exitCode :: "int js"
  maxAttempts :: int
  attemptsMade :: int
  createdAt :: "time js"
  updatedAt :: "time js"
  processedOn :: "time js"
  finishedOn :: "time js"
  failedReason :: "string js"
  stackTrace :: "string js"
  lockToken :: "string js"
  keepLogs :: nat
  queueId :: nat

text \<open>Interface \<open>JobOptions\<close> (\<open>src/interfaces/job.ts\<close>).\<close>

record JobOptions =
  opt_customId :: "string js"
  opt_priority :: "int js"
  opt_maxAttempts :: "int js"
  opt_timeout :: "int js"
  opt_workingDir :: "string js"
  opt_keepLogs :: "nat js"

text \<open>\<open>a ?? b\<close>: the default replaces \<open>undefined\<close> and \<open>null\<close>.\<close>

fun nullish :: "'a js \<Rightarrow> 'a \<Rightarrow> 'a" where
  "nullish (Val x) d = x"
| "nullish Undefined d = d"
| "nullish Null d = d"

text \<open>A nullable column read into JavaScript: \<open>NULL\<close> becomes \<open>null\<close>.\<close>

fun of_col :: "'a option \<Rightarrow> 'a js" where
  "of_col None = Null"
| "of_col (Some x) = Val x"

text \<open>The constructor of \<open>Job\<close>, with the field initialisers of the class.\<close>

definition new_Job :: "string \<Rightarrow> string \<Rightarrow> nat \<Rightarrow> string list js \<Rightarrow> JobOptions \<Rightarrow> Job" where
  "new_Job n c q a options =
     \<lparr> id' = Undefined,
       customId = opt_customId options,
       name = n,
       command = c,
       args = a,
       workingDir = opt_workingDir options,
       timeout = opt_timeout options,
       status = PENDING,
       priority = nullish (opt_priority options) 0,
       stdOut = Undefined,
       stdErr = Undefined,
       exitCode = Undefined,
       maxAttempts = nullish (opt_maxAttempts options) 1,
       attemptsMade = 0,
       createdAt = Undefined,
       updatedAt = Undefined,
       processedOn = Undefined,
       finishedOn = Undefined,
       failedReason = Undefined,
       stackTrace = Undefined,
       lockToken = Undefined,
       keepLogs = nullish (opt_keepLogs options) 50,
       queueId = q \<rparr>"

section \<open>The atomic lease: \<open>Worker.fetchAndLockNextJobs\<close>\<close>

text \<open>The scalar subquery \<open>(SELECT id FROM queue WHERE name = $2)\<close>; \<open>name\<close> is unique.\<close>

definition queue_id_of_name :: "database \<Rightarrow> string \<Rightarrow> nat option" where
  "queue_id_of_name db qn =
     (case filter (\<lambda>q. q_name q = qn) (queue_tbl db) of
        [] \<Rightarrow> None
      | q # _ \<Rightarrow> Some (q_id q))"

text \<open>The \<open>WHERE\<close> clause of the common table expression \<open>next_job\<close>.\<close>

definition lease_eligible :: "nat option \<Rightarrow> job_row \<Rightarrow> bool" where
  "lease_eligible qid r \<longleftrightarrow>
     status_col r = PENDING \<and> Some (queue_id r) = qid \<and> lock_token r = None"

text \<open>\<open>ORDER BY priority ASC, created_at ASC, id ASC\<close>.\<close>

definition lease_order :: "job_row \<Rightarrow> int \<times> time \<times> nat" where
  "lease_order r = (priority_col r, created_at r, id_col r)"

text \<open>
  The rows the common table expression selects: eligible, ordered, at most \<open>LIMIT\<close> many.
  A transaction is an atomic step here, so \<open>FOR UPDATE SKIP LOCKED\<close> finds no row locked.
\<close>

definition next_job_rows :: "database \<Rightarrow> string \<Rightarrow> nat \<Rightarrow> job_row list" where
  "next_job_rows db queueName slotsToFill =
     take slotsToFill
       (sort_key lease_order
          (filter (lease_eligible (queue_id_of_name db queueName)) (job_tbl db)))"

definition next_job :: "database \<Rightarrow> string \<Rightarrow> nat \<Rightarrow> nat list" where
  "next_job db queueName slotsToFill = map id_col (next_job_rows db queueName slotsToFill)"

text \<open>The \<open>SET\<close> list of the \<open>UPDATE\<close>; \<open>NOW()\<close> is the parameter \<open>now\<close>.\<close>

definition lease_update :: "time \<Rightarrow> string \<Rightarrow> job_row \<Rightarrow> job_row" where
  "lease_update now tok r =
     r\<lparr> status_col := RUNNING,
        lock_token := Some tok,
        processed_on := Some now,
        attempts_made := attempts_made r + 1 \<rparr>"

text \<open>The callback of \<open>result.map\<close>: a \<open>Job\<close> object built from a returned row.\<close>

definition job_of_row :: "job_row \<Rightarrow> Job" where
  "job_of_row jobData =
     (new_Job (name_col jobData) (command_col jobData) (queue_id jobData)
        (of_col (args_col jobData))
        \<lparr> opt_customId = of_col (custom_id jobData),
          opt_priority = Val (priority_col jobData),
          opt_maxAttempts = Val (max_attempts jobData),
          opt_timeout = of_col (timeout_col jobData),
          opt_workingDir = of_col (working_dir jobData),
          opt_keepLogs = of_col (keep_logs jobData) \<rparr>)
     \<lparr> id' := Val (id_col jobData),
       status := status_col jobData,
       attemptsMade := attempts_made jobData,
       createdAt := Val (created_at jobData),
       updatedAt := Val (updated_at jobData),
       processedOn := of_col (processed_on jobData),
       finishedOn := of_col (finished_on jobData),
       failedReason := of_col (failed_reason jobData),
       stackTrace := of_col (stack_trace jobData),
       lockToken := of_col (lock_token jobData),
       stdOut := of_col (std_out jobData),
       stdErr := of_col (std_err jobData),
       exitCode := of_col (exit_code jobData) \<rparr>"

text \<open>
  The statement \<open>WITH next_job AS (...) UPDATE job SET ... WHERE id IN (SELECT id FROM
  next_job) RETURNING *\<close>. The \<open>UPDATE\<close> visits the table \<open>job\<close> and \<open>RETURNING\<close> yields
  the rows it updates as it visits them; the \<open>ORDER BY\<close> of the common table expression
  orders the choice of rows, not the result. The order of the visit is the server's; the
  model takes the order of the list \<open>job_tbl\<close> and keeps an updated row in its place. The
  statements about a batch do not depend on this choice, except where they exhibit one
  possible order. The lock token \<open>tok\<close>, which the source
  computes from the process id, the clock and a random number, is a parameter.
\<close>

definition fetchAndLockNextJobs ::
  "time \<Rightarrow> string \<Rightarrow> string \<Rightarrow> nat \<Rightarrow> database \<Rightarrow> Job list \<times> database" where
  "fetchAndLockNextJobs now tok queueName slotsToFill db =
     (let ids = next_job db queueName slotsToFill;
          tbl = map (\<lambda>r. if id_col r \<in> set ids then lease_update now tok r else r)
                  (job_tbl db);
          result = filter (\<lambda>r. id_col r \<in> set ids) tbl
      in (map job_of_row result, db\<lparr> job_tbl := tbl \<rparr>))"

text \<open>
  Lease operations one after the other, by whatever workers: each request is the time,
  the lock token, the queue name and the number of slots of one call.
\<close>

fun leases :: "(time \<times> string \<times> string \<times> nat) list \<Rightarrow> database \<Rightarrow> Job list list \<times> database" where
  "leases [] db = ([], db)"
| "leases ((now, tok, qn, k) # reqs) db =
     (case fetchAndLockNextJobs now tok qn k db of
        (batch, db1) \<Rightarrow>
          (case leases reqs db1 of (batches, db2) \<Rightarrow> (batch # batches, db2)))"

section \<open>Errors\<close>

text \<open>
  Every \<open>throw\<close> of the source is a value of \<open>error\<close>. The source wraps what it catches as
  \<open>new Error(`<context>${error}`)\<close>: that is \<open>Context\<close>, which keeps the wrapped error.
  \<open>RecordNotFound\<close> and \<open>UniqueConstraint\<close> are the Prisma client's errors for an update
  or a nested \<open>connect\<close> that finds no record and for a violated \<open>@unique\<close>,
  \<open>ForeignKeyConstraint\<close> its error for a log row whose job does not exist;
  \<open>UndefinedTable\<close> is PostgreSQL's error for a raw statement that names a relation the
  schema does not have.
\<close>

datatype error =
    JobIdRequired
  | RecordNotFound
  | UniqueConstraint
  | ForeignKeyConstraint
  | UndefinedTable string
  | JobNotFound nat
  | JobNotFoundAfterLock nat
  | NotPending nat JobStatus
  | SshFailure string
  | JobTimedOut int
  | Context string error

text \<open>An \<open>Error\<close> object handed to \<open>moveToFailed\<close>: its message and its stack.\<close>

record js_Error =
  err_message :: "string js"
  err_stack :: "string js"

text \<open>Decimal numerals, for the template strings of the source.\<close>

definition digit_char :: "nat \<Rightarrow> char" where
  "digit_char d = char_of (48 + d)"

function show_nat :: "nat \<Rightarrow> string" where
  "show_nat n = (if n < 10 then [digit_char n] else show_nat (n div 10) @ [digit_char (n mod 10)])"
  by pat_completeness auto
termination
  by (relation "measure (\<lambda>n. n)") auto




section \<open>Writing a job: the Prisma client and \<open>Job.save\<close>\<close>

text \<open>
  In the \<open>data\<close> of a Prisma \<open>create\<close> or \<open>update\<close>, \<open>undefined\<close> means "leave the column
  alone" (on \<open>create\<close>: take its default), \<open>null\<close> stores \<open>NULL\<close>.
\<close>

fun set_col :: "'a js \<Rightarrow> 'a option \<Rightarrow> 'a option" where
  "set_col Undefined old = old"
| "set_col Null old = None"
| "set_col (Val x) old = Some x"

text \<open>A JavaScript number used as a condition: \<open>undefined\<close>, \<open>null\<close> and \<open>0\<close> are falsy.\<close>

fun truthy_num :: "nat js \<Rightarrow> bool" where
  "truthy_num (Val n) = (n \<noteq> 0)"
| "truthy_num Undefined = False"
| "truthy_num Null = False"

text \<open>
  The constraints of table \<open>job\<close> that a write can violate: \<open>custom_id\<close> is \<open>@unique\<close>
  (a \<open>NULL\<close> never clashes), and \<open>queue: { connect: { id } }\<close> needs that queue.
\<close>

definition custom_id_clash :: "job_row list \<Rightarrow> job_row \<Rightarrow> bool" where
  "custom_id_clash others r \<longleftrightarrow>
     custom_id r \<noteq> None \<and> custom_id r \<in> set (map custom_id others)"

definition queue_exists :: "database \<Rightarrow> nat \<Rightarrow> bool" where
  "queue_exists db q \<longleftrightarrow> q \<in> set (map q_id (queue_tbl db))"

text \<open>
  \<open>db.job.update({ where: { id }, data })\<close>: the row with that id gets \<open>data\<close>, and
  \<open>updated_at\<close>, which the schema marks \<open>@updatedAt\<close>, gets the time of the update.
\<close>

definition job_update ::
  "time \<Rightarrow> nat \<Rightarrow> (job_row \<Rightarrow> job_row) \<Rightarrow> database \<Rightarrow> error + database" where
  "job_update now i d db =
     (case find (\<lambda>r. id_col r = i) (job_tbl db) of
        None \<Rightarrow> Inl RecordNotFound
      | Some old \<Rightarrow>
          let updated = (d old)\<lparr> updated_at := now \<rparr>
          in if \<not> queue_exists db (queue_id updated) then Inl RecordNotFound
             else if custom_id_clash (filter (\<lambda>r. id_col r \<noteq> i) (job_tbl db)) updated
             then Inl UniqueConstraint
             else Inr (db\<lparr> job_tbl :=
                          map (\<lambda>r. if id_col r = i then (d r)\<lparr> updated_at := now \<rparr> else r)
                            (job_tbl db) \<rparr>))"

text \<open>\<open>db.job.create({ data })\<close>: a new row with the next serial id and the defaults.\<close>

definition job_create ::
  "time \<Rightarrow> (job_row \<Rightarrow> job_row) \<Rightarrow> database \<Rightarrow> error + (job_row \<times> database)" where
  "job_create now d db =
     (let fresh = \<lparr> id_col = job_id_seq db, custom_id = None, name_col = [], command_col = [],
                     args_col = None, working_dir = None, timeout_col = None, std_out = None,
                     std_err = None, exit_code = None, status_col = PENDING, priority_col = 0,
                     max_attempts = 0, attempts_made = 0, created_at = now, updated_at = now,
                     processed_on = None, finished_on = None, failed_reason = None,
                     stack_trace = None, lock_token = None, keep_logs = Some 50,
                     queue_id = 0 \<rparr>;
          created = d fresh
      in if \<not> queue_exists db (queue_id created) then Inl RecordNotFound
         else if custom_id_clash (job_tbl db) created then Inl UniqueConstraint
         else Inr (created, db\<lparr> job_tbl := job_tbl db @ [created],
                                 job_id_seq := Suc (job_id_seq db) \<rparr>))"

text \<open>
  The object \<open>jobData\<close> of \<open>Job.save\<close>, as the assignment it makes to a row. The rule for
  \<open>undefined\<close> and \<open>null\<close> is applied to every nullable column, \<open>args\<close> included.
\<close>

definition jobData :: "Job \<Rightarrow> job_row \<Rightarrow> job_row" where
  "jobData j r =
     r\<lparr> custom_id := set_col (customId j) (custom_id r),
        name_col := name j,
        command_col := command j,
        args_col := set_col (args j) (args_col r),
        working_dir := set_col (workingDir j) (working_dir r),
        timeout_col := set_col (timeout j) (timeout_col r),
        status_col := status j,
        priority_col := priority j,
        std_out := set_col (stdOut j) (std_out r),
        std_err := set_col (stdErr j) (std_err r),
        exit_code := set_col (exitCode j) (exit_code r),
        max_attempts := maxAttempts j,
        attempts_made := attemptsMade j,
        processed_on := set_col (processedOn j) (processed_on r),
        finished_on := set_col (finishedOn j) (finished_on r),
        failed_reason := set_col (failedReason j) (failed_reason r),
        stack_trace := set_col (stackTrace j) (stack_trace r),
        lock_token := set_col (lockToken j) (lock_token r),
        keep_logs := Some (keepLogs j),
        queue_id := queueId j \<rparr>"

text \<open>\<open>Job.save\<close>: update when the object has an id, create otherwise.\<close>

definition save :: "time \<Rightarrow> Job \<Rightarrow> database \<Rightarrow> error + (Job \<times> database)" where
  "save now j db =
     (let wrap = Context (''Error saving job '' @ name j @ '' in queue ''
                            @ show_nat (queueId j) @ '': '')
      in if truthy_num (id' j) then
           (case job_update now (nullish (id' j) 0) (jobData j) db of
              Inl e \<Rightarrow> Inl (wrap e)
            | Inr db' \<Rightarrow> Inr (j\<lparr> updatedAt := Val now \<rparr>, db'))
         else
           (case job_create now (jobData j) db of
              Inl e \<Rightarrow> Inl (wrap e)
            | Inr (created, db') \<Rightarrow>
                Inr (j\<lparr> id' := Val (id_col created),
                        createdAt := Val (created_at created),
                        updatedAt := Val (updated_at created) \<rparr>, db')))"

text \<open>\<open>notifyNewJob\<close>: \<open>pg_notify('new_job', this.name)\<close> on the notification client.\<close>

definition notifyNewJob :: "Job \<Rightarrow> database \<Rightarrow> database" where
  "notifyNewJob j db = db\<lparr> notifications := notifications db @ [name j] \<rparr>"

section \<open>State transitions of a job\<close>

text \<open>
  Each \<open>moveTo...\<close> method runs one transaction: \<open>SELECT * FROM job WHERE id = $1 FOR
  UPDATE\<close>, assignments to the object, \<open>save\<close>. The raw query returns an array, so the
  test \<open>if (!job)\<close> after it never throws. A transaction that throws is rolled back: the
  result \<open>Inl\<close> carries the error and the object as the assignments left it, and the
  database is the one before the call.
\<close>

definition moveToRunning ::
  "time \<Rightarrow> string \<Rightarrow> Job \<Rightarrow> database \<Rightarrow> (error \<times> Job) + (Job \<times> database)" where
  "moveToRunning now tok j db =
     (if \<not> truthy_num (id' j) then Inl (JobIdRequired, j)
      else
        let j1 = j\<lparr> status := RUNNING,
                    lockToken := Val tok,
                    processedOn := Val now,
                    attemptsMade := attemptsMade j + 1 \<rparr>
        in case save now j1 db of
             Inl e \<Rightarrow> Inl (Context (''Error moving job '' @ name j @ '' to running: '') e, j1)
           | Inr (j2, db') \<Rightarrow> Inr (j2, db'))"


text \<open>\<open>error.toString()\<close> of an \<open>Error\<close> object.\<close>

definition error_toString :: "js_Error \<Rightarrow> string" where
  "error_toString e =
     (let m = nullish (err_message e) [] in if m = [] then ''Error'' else ''Error: '' @ m)"

definition shouldRetry :: "Job \<Rightarrow> bool" where
  "shouldRetry j \<longleftrightarrow> attemptsMade j < maxAttempts j"

text \<open>\<open>moveToFailed(error, exitCode?, stdOut?, stdErr?)\<close>.\<close>

definition moveToFailed ::
  "time \<Rightarrow> js_Error \<Rightarrow> int js \<Rightarrow> string js \<Rightarrow> string js \<Rightarrow> Job \<Rightarrow> database
     \<Rightarrow> (error \<times> Job) + (Job \<times> database)" where
  "moveToFailed now e code out err j db =
     (if \<not> truthy_num (id' j) then Inl (JobIdRequired, j)
      else
        let wrap = Context (''Error moving job '' @ name j @ '' to failed: '');
            j1 = j\<lparr> failedReason := Val (nullish (err_message e) (error_toString e)),
                    stackTrace := Val (nullish (err_stack e) (error_toString e)),
                    exitCode := code,
                    lockToken := Null,
                    stdOut := out,
                    stdErr := err,
                    processedOn := Val now,
                    finishedOn := Val now \<rparr>
        in if shouldRetry j1 then
             (let j2 = j1\<lparr> status := PENDING,
                          finishedOn := Undefined,
                          lockToken := Null,
                          processedOn := Undefined,
                          failedReason := Undefined,
                          stackTrace := Undefined \<rparr>
              in case save now j2 db of
                   Inl x \<Rightarrow> Inl (wrap x, j2)
                 | Inr (j3, db') \<Rightarrow> Inr (j3, notifyNewJob j3 db'))
           else
             (let j2 = j1\<lparr> status := FAILED \<rparr>
              in case save now j2 db of
                   Inl x \<Rightarrow> Inl (wrap x, j2)
                 | Inr (j3, db') \<Rightarrow> Inr (j3, db')))"

text \<open>\<open>moveToCancelled(reason = 'Job cancelled by user')\<close>; the default is the caller's.\<close>

definition moveToCancelled ::
  "time \<Rightarrow> string \<Rightarrow> Job \<Rightarrow> database \<Rightarrow> (error \<times> Job) + (Job \<times> database)" where
  "moveToCancelled now reason j db =
     (if \<not> truthy_num (id' j) then Inl (JobIdRequired, j)
      else
        let j1 = j\<lparr> status := CANCELLED,
                    failedReason := Val reason,
                    finishedOn := Val now,
                    lockToken := Null \<rparr>
        in case save now j1 db of
             Inl e \<Rightarrow> Inl (Context (''Error moving job '' @ name j @ '' to cancelled: '') e, j1)
           | Inr (j2, db') \<Rightarrow> Inr (j2, db'))"

text \<open>The static \<open>Job.retry(jobId)\<close>: one \<open>update\<close> whose data are six explicit values.\<close>

definition retry_data :: "job_row \<Rightarrow> job_row" where
  "retry_data r =
     r\<lparr> status_col := PENDING,
        failed_reason := None,
        stack_trace := None,
        lock_token := None,
        finished_on := None,
        exit_code := None \<rparr>"

definition retry :: "time \<Rightarrow> nat \<Rightarrow> database \<Rightarrow> error + database" where
  "retry now jobId db =
     (case job_update now jobId retry_data db of
        Inl e \<Rightarrow> Inl (Context (''Error retrying job '' @ show_nat jobId @ '': '') e)
      | Inr db' \<Rightarrow> Inr db')"

text \<open>
  A raw \<open>SELECT id FROM <relation> WHERE id = $1 FOR UPDATE\<close>. The schema maps the models to
  the relations \<open>job\<close> and \<open>queue\<close> (\<open>@@map\<close>); a quoted identifier is case-sensitive, and
  any other name with an integer \<open>id\<close> is a relation the database does not have.
\<close>

definition select_id_for_update :: "string \<Rightarrow> nat \<Rightarrow> database \<Rightarrow> error + nat list" where
  "select_id_for_update rel i db =
     (if rel = ''job'' then Inr (filter (\<lambda>k. k = i) (map id_col (job_tbl db)))
      else if rel = ''queue'' then Inr (filter (\<lambda>k. k = i) (map q_id (queue_tbl db)))
      else Inl (UndefinedTable rel))"

definition cancel_data :: "time \<Rightarrow> string \<Rightarrow> job_row \<Rightarrow> job_row" where
  "cancel_data now reason r =
     r\<lparr> status_col := CANCELLED,
        failed_reason := Some reason,
        finished_on := Some now,
        lock_token := None \<rparr>"

text \<open>
  The static \<open>Job.cancelJob(jobId, reason)\<close>. \<open>cancelJob_in\<close> is its transaction with the
  relation that the raw query names as a parameter; the source names \<open>"Job"\<close>.
\<close>

definition cancelJob_in ::
  "string \<Rightarrow> time \<Rightarrow> nat \<Rightarrow> string \<Rightarrow> database \<Rightarrow> error + database" where
  "cancelJob_in rel now jobId reason db =
     (let wrap = Context (''Error cancelling job '' @ show_nat jobId @ '': '')
      in case select_id_for_update rel jobId db of
           Inl e \<Rightarrow> Inl (wrap e)
         | Inr jobLockResult \<Rightarrow>
             if length jobLockResult = 0 then Inl (wrap (JobNotFound jobId))
             else
               (case find (\<lambda>r. id_col r = jobId) (job_tbl db) of
                  None \<Rightarrow> Inl (wrap (JobNotFoundAfterLock jobId))
                | Some job \<Rightarrow>
                    if status_col job \<noteq> PENDING
                    then Inl (wrap (NotPending jobId (status_col job)))
                    else
                      (case job_update now jobId (cancel_data now reason) db of
                         Inl e \<Rightarrow> Inl (wrap e)
                       | Inr db' \<Rightarrow> Inr db')))"

definition cancelJob :: "time \<Rightarrow> nat \<Rightarrow> string \<Rightarrow> database \<Rightarrow> error + database" where
  "cancelJob = cancelJob_in ''Job''"

section \<open>The log of a job: \<open>Job.addLog\<close> and \<open>Job.cleanOldLogs\<close>\<close>

text \<open>The log rows of one job, \<open>ORDER BY sequence DESC\<close>.\<close>

definition logs_desc :: "database \<Rightarrow> nat \<Rightarrow> job_log_row list" where
  "logs_desc db i = rev (sort_key sequence (filter (\<lambda>l. job_id l = i) (job_log_tbl db)))"

text \<open>
  \<open>cleanOldLogs\<close>: nothing when the object has no id or \<open>keepLogs\<close> is falsy; otherwise
  \<open>findMany\<close> with \<open>skip: keepLogs\<close> and, when that finds rows, \<open>deleteMany\<close> of the rows of
  this job whose sequence is among them.
\<close>

definition cleanOldLogs :: "Job \<Rightarrow> database \<Rightarrow> database" where
  "cleanOldLogs j db =
     (if \<not> truthy_num (id' j) \<or> keepLogs j = 0 then db
      else
        let i = nullish (id' j) 0;
            logs = drop (keepLogs j) (logs_desc db i)
        in if length logs > 0
           then db\<lparr> job_log_tbl :=
                      filter (\<lambda>l. \<not> (job_id l = i \<and> sequence l \<in> set (map sequence logs)))
                        (job_log_tbl db) \<rparr>
           else db)"

text \<open>The sequence number \<open>addLog\<close> computes from the last log row (\<open>LIMIT 1\<close>).\<close>

definition next_sequence :: "database \<Rightarrow> nat \<Rightarrow> nat" where
  "next_sequence db i =
     (case take 1 (logs_desc db i) of
        [] \<Rightarrow> 1
      | lastLog # _ \<Rightarrow> sequence lastLog + 1)"

text \<open>
  \<open>addLog(message)\<close>, one transaction: lock the job row, read the last log row, insert the
  new one, clean. The insert needs the job row (\<open>job_id\<close> references \<open>job\<close>) and a pair
  \<open>(job_id, sequence)\<close> not yet in the table.
\<close>

definition addLog :: "time \<Rightarrow> string \<Rightarrow> Job \<Rightarrow> database \<Rightarrow> error + database" where
  "addLog now msg j db =
     (if \<not> truthy_num (id' j) then Inr db
      else
        let i = nullish (id' j) 0;
            wrap = Context (''Error adding log to job '' @ name j @ '': '');
            s = next_sequence db i
        in if i \<notin> set (map id_col (job_tbl db)) then Inl (wrap ForeignKeyConstraint)
           else if (i, s) \<in> set (map (\<lambda>l. (job_id l, sequence l)) (job_log_tbl db))
           then Inl (wrap UniqueConstraint)
           else Inr (cleanOldLogs j
                  (db\<lparr> job_log_tbl := job_log_tbl db
                         @ [\<lparr> job_id = i, sequence = s, message = msg, log_created_at = now \<rparr>] \<rparr>)))"

text \<open>
  Consecutive calls of \<open>addLog\<close> on one job object, each with its time and message,
  stopping at the first that throws; and the sequence numbers these calls assign.
\<close>

fun addLogs :: "(time \<times> string) list \<Rightarrow> Job \<Rightarrow> database \<Rightarrow> error + database" where
  "addLogs [] j db = Inr db"
| "addLogs ((t, m) # calls) j db =
     (case addLog t m j db of
        Inl e \<Rightarrow> Inl e
      | Inr db' \<Rightarrow> addLogs calls j db')"

fun assigned_sequences :: "(time \<times> string) list \<Rightarrow> Job \<Rightarrow> database \<Rightarrow> nat list" where
  "assigned_sequences [] j db = []"
| "assigned_sequences ((t, m) # calls) j db =
     (case addLog t m j db of
        Inl e \<Rightarrow> []
      | Inr db' \<Rightarrow> next_sequence db (nullish (id' j) 0) # assigned_sequences calls j db')"

text \<open>The sequence numbers of the live log rows of a job, in storage order.\<close>

definition live_sequences :: "database \<Rightarrow> nat \<Rightarrow> nat list" where
  "live_sequences db i = map sequence (filter (\<lambda>l. job_id l = i) (job_log_tbl db))"

section \<open>The remote executor\<close>

text \<open>
  \<open>RemoteExecutionConfig\<close>: the working directory and the environment map, whose entries
  are listed as \<open>Object.entries\<close> yields them. The SSH settings play no role here.
\<close>

record RemoteExecutionConfig =
  cfg_workingDir :: "string js"
  cfg_env :: "(string \<times> string) list js"

text \<open>
  The npm package \<open>shell-escape\<close>, which the executor imports: an argument with a character
  outside \<open>A-Za-z0-9_/-\<close> is put between single quotes, each single quote in it written
  \<open>'\''\<close>; then pairs of quotes at the start are dropped and \<open>\'''\<close> becomes \<open>\'\<close>; the
  arguments are joined by spaces. The functions of the executor take the escaping function
  as the parameter \<open>esc\<close>; \<open>shellescape\<close> is this package's.
\<close>

definition quote_char :: char where
  "quote_char = CHR 0x27"

definition backslash_char :: char where
  "backslash_char = CHR 0x5C"

definition dquote_char :: char where
  "dquote_char = CHR 0x22"

definition shell_safe_char :: "char \<Rightarrow> bool" where
  "shell_safe_char c \<longleftrightarrow>
     (let n = of_char c :: nat
      in (65 \<le> n \<and> n \<le> 90) \<or> (97 \<le> n \<and> n \<le> 122) \<or> (48 \<le> n \<and> n \<le> 57)
         \<or> c = CHR ''_'' \<or> c = CHR ''/'' \<or> c = CHR ''-'')"

fun strip_quote_pairs :: "string \<Rightarrow> string" where
  "strip_quote_pairs (a # b # s) =
     (if a = quote_char \<and> b = quote_char then strip_quote_pairs s else a # b # s)"
| "strip_quote_pairs s = s"

fun unquote_escaped :: "string \<Rightarrow> string" where
  "unquote_escaped (a # b # c # d # s) =
     (if a = backslash_char \<and> b = quote_char \<and> c = quote_char \<and> d = quote_char
      then a # b # unquote_escaped s
      else a # unquote_escaped (b # c # d # s))"
| "unquote_escaped s = s"

definition shellescape_arg :: "string \<Rightarrow> string" where
  "shellescape_arg s =
     (if \<exists>c \<in> set s. \<not> shell_safe_char c
      then unquote_escaped (strip_quote_pairs
             ([quote_char]
              @ concat (map (\<lambda>c. if c = quote_char
                                  then [quote_char, backslash_char, quote_char, quote_char]
                                  else [c]) s)
              @ [quote_char]))
      else s)"

text \<open>\<open>Array.prototype.join\<close>.\<close>

fun join :: "string \<Rightarrow> string list \<Rightarrow> string" where
  "join sep [] = []"
| "join sep [x] = x"
| "join sep (x # y # xs) = x @ sep @ join sep (y # xs)"

definition shellescape :: "string list \<Rightarrow> string" where
  "shellescape a = join '' '' (map shellescape_arg a)"

text \<open>\<open>buildCommand\<close>: without arguments the command is returned as it is.\<close>

definition buildCommand :: "(string list \<Rightarrow> string) \<Rightarrow> Job \<Rightarrow> string" where
  "buildCommand esc j =
     (case args j of
        Val (a # as) \<Rightarrow> esc (command j # a # as)
      | _ \<Rightarrow> command j)"

text \<open>The \<open>export\<close> prefix that \<open>executeJob\<close> builds from the environment map.\<close>

definition envString :: "RemoteExecutionConfig \<Rightarrow> string" where
  "envString cfg =
     (case cfg_env cfg of
        Val entries \<Rightarrow>
          join '' '' (map (\<lambda>(k, v). ''export '' @ k @ ''='' @ [dquote_char] @ v
                                     @ [dquote_char] @ '';'') entries)
      | _ \<Rightarrow> [])"

definition commandWithEnv :: "(string list \<Rightarrow> string) \<Rightarrow> RemoteExecutionConfig \<Rightarrow> Job \<Rightarrow> string" where
  "commandWithEnv esc cfg j =
     (let fullCommand = buildCommand esc j
      in if envString cfg \<noteq> [] then envString cfg @ '' '' @ fullCommand else fullCommand)"

text \<open>\<open>a || b\<close> on optional strings: \<open>undefined\<close>, \<open>null\<close> and \<open>''\<close> are falsy.\<close>

fun truthy_str :: "string js \<Rightarrow> bool" where
  "truthy_str (Val s) = (s \<noteq> [])"
| "truthy_str Undefined = False"
| "truthy_str Null = False"

definition or_js :: "string js \<Rightarrow> string js \<Rightarrow> string js" where
  "or_js a b = (if truthy_str a then a else b)"

definition cwd_of :: "RemoteExecutionConfig \<Rightarrow> Job \<Rightarrow> string js" where
  "cwd_of cfg j = or_js (or_js (workingDir j) (cfg_workingDir cfg)) (Val ''/tmp'')"

text \<open>
  The SSH layer (\<open>node-ssh\<close>) is the environment. One run of \<open>execCommand\<close> delivers chunks
  of output (the time of delivery, whether on stdout, the text), then resolves with an
  exit code that is a number or \<open>null\<close> and the whole output, or rejects with a message.
  \<open>elapsed\<close> is the time the run took; \<open>timer_first\<close> tells whether the timer of
  \<open>executeJobWithTimeout\<close>, when there is one, settles the race before the run does.
\<close>

record ssh_result =
  code :: "int js"
  stdout :: string
  stderr :: string

record ssh_run =
  chunks :: "(time \<times> bool \<times> string) list"
  outcome :: "string + ssh_result"
  elapsed :: nat
  timer_first :: bool

record ExecutionResult =
  res_exitCode :: int
  res_stdout :: string
  res_stderr :: string
  res_duration :: nat

text \<open>
  The callbacks \<open>onStdout\<close> and \<open>onStderr\<close>: \<open>job.addLog(...).catch(console.error)\<close>. A log
  that fails is dropped. The source starts the calls and does not await them, so they may
  overlap and end in another order; the model applies them one after the other, in the
  order of the chunks, before the result of the run is used. They touch only the table
  \<open>job_log\<close>.
\<close>

definition log_chunk :: "Job \<Rightarrow> time \<times> bool \<times> string \<Rightarrow> database \<Rightarrow> database" where
  "log_chunk j c db =
     (case c of (t, is_stdout, text) \<Rightarrow>
        (case addLog t ((if is_stdout then ''[stdout] '' else ''[stderr] '') @ text) j db of
           Inl e \<Rightarrow> db
         | Inr db' \<Rightarrow> db'))"

text \<open>\<open>RemoteExecutor.executeJob\<close>; \<open>ssh\<close> maps the command string and the cwd to the run.\<close>

definition executeJob ::
  "(string list \<Rightarrow> string) \<Rightarrow> RemoteExecutionConfig \<Rightarrow> (string \<Rightarrow> string js \<Rightarrow> ssh_run)
     \<Rightarrow> Job \<Rightarrow> database \<Rightarrow> (error + ExecutionResult) \<times> database" where
  "executeJob esc cfg ssh j db =
     (let run = ssh (commandWithEnv esc cfg j) (cwd_of cfg j);
          db' = fold (log_chunk j) (chunks run) db
      in case outcome run of
           Inl m \<Rightarrow> (Inl (Context (''Error executing job '' @ name j @ '': '') (SshFailure m)), db')
         | Inr result \<Rightarrow>
             (Inr \<lparr> res_exitCode = nullish (code result) 0,
                    res_stdout = stdout result,
                    res_stderr = stderr result,
                    res_duration = elapsed run \<rparr>, db'))"



section \<open>The worker: \<open>Worker.executeJob\<close> and \<open>Worker.processJob\<close>\<close>







section \<open>Auxiliary definitions for the statements\<close>


text \<open>
  The log rows that the calls of \<open>addLog\<close> insert for job \<open>i\<close>, numbered from 1, and the
  number of the oldest of \<open>n\<close> rows that are dropped when \<open>keepLogs\<close> is \<open>K\<close>.
\<close>

definition appended_rows :: "nat \<Rightarrow> (time \<times> string) list \<Rightarrow> job_log_row list" where
  "appended_rows i calls =
     map (\<lambda>(s, t, m). \<lparr> job_id = i, sequence = s, message = m, log_created_at = t \<rparr>)
       (enumerate 1 calls)"

definition retained_from :: "nat \<Rightarrow> nat \<Rightarrow> nat" where
  "retained_from K n = (if K = 0 then 0 else n - K)"

text \<open>
  Example data: a pending job \<open>echo 1\<close> of queue 1 with two attempts and three kept logs, a database
  with two such jobs, the second of higher priority, and five log calls.
\<close>

definition pending_row :: "nat \<Rightarrow> int \<Rightarrow> time \<Rightarrow> job_row" where
  "pending_row i p t =
     \<lparr> id_col = i, custom_id = None, name_col = ''job'', command_col = ''echo'',
       args_col = Some [''1''], working_dir = None, timeout_col = None, std_out = None,
       std_err = None, exit_code = None, status_col = PENDING, priority_col = p,
       max_attempts = 2, attempts_made = 0, created_at = t, updated_at = t,
       processed_on = None, finished_on = None, failed_reason = None,
       stack_trace = None, lock_token = None, keep_logs = Some 3, queue_id = 1 \<rparr>"

definition two_job_db :: database where
  "two_job_db =
     \<lparr> queue_tbl = [\<lparr> q_id = 1, q_name = ''q'', q_status = ACTIVE \<rparr>],
       job_tbl = [pending_row 1 5 10, pending_row 2 0 20],
       job_log_tbl = [],
       job_id_seq = 3,
       notifications = [] \<rparr>"

definition five_logs :: "(time \<times> string) list" where
  "five_logs = [(1, ''log 1''), (2, ''log 2''), (3, ''log 3''), (4, ''log 4''), (5, ''log 5'')]"

text \<open>
  The row of a job, found by its id, and what an update of the row with id \<open>i\<close> to the row
  \<open>r\<close> needs to be accepted: the queue of \<open>r\<close> exists and its custom id is no other
  row's.
\<close>

definition job_by_id :: "database \<Rightarrow> nat \<Rightarrow> job_row option" where
  "job_by_id db i = find (\<lambda>r. id_col r = i) (job_tbl db)"

definition update_accepted :: "nat \<Rightarrow> job_row \<Rightarrow> database \<Rightarrow> bool" where
  "update_accepted i r db \<longleftrightarrow>
     queue_exists db (queue_id r)
     \<and> \<not> custom_id_clash (filter (\<lambda>x. id_col x \<noteq> i) (job_tbl db)) r"

text \<open>
  The prefix of the specification: one \<open>export KEY="VALUE"; \<close> for each entry of the
  environment map.
\<close>

definition env_exports :: "(string \<times> string) list \<Rightarrow> string" where
  "env_exports entries =
     concat (map (\<lambda>(k, v). ''export '' @ k @ ''='' @ [dquote_char] @ v @ [dquote_char] @ ''; '')
               entries)"

text \<open>
  More example data: job 1 completed; job 2 leased at time 100 by the lease of one slot on
  \<open>two_job_db\<close>, and the object that lease returns; the error of a non-zero exit code; jobs
  with a command that has a space and with arguments; two executor configurations; and a
  run of the SSH layer that ends without a numeric exit code.
\<close>

definition done_row :: job_row where
  "done_row = (pending_row 1 5 10)
     \<lparr> status_col := COMPLETED, attempts_made := 1, processed_on := Some 30,
       finished_on := Some 50, exit_code := Some 0 \<rparr>"

definition done_db :: database where
  "done_db = two_job_db\<lparr> job_tbl := [done_row, pending_row 2 0 20] \<rparr>"

definition leased_db :: database where
  "leased_db = snd (fetchAndLockNextJobs 100 ''w'' ''q'' 1 two_job_db)"

definition leased_job :: Job where
  "leased_job = hd (fst (fetchAndLockNextJobs 100 ''w'' ''q'' 1 two_job_db))"

definition exit_error :: js_Error where
  "exit_error = \<lparr> err_message = Val ''Job failed with exit code 1'',
                   err_stack = Val ''Error: Job failed with exit code 1'' \<rparr>"

definition echo_job :: Job where
  "echo_job =
     job_of_row ((pending_row 1 5 10)\<lparr> command_col := ''echo hi'', args_col := Some [] \<rparr>)"

definition plain_config :: RemoteExecutionConfig where
  "plain_config = \<lparr> cfg_workingDir = Undefined, cfg_env = Undefined \<rparr>"

definition path_config :: RemoteExecutionConfig where
  "path_config = \<lparr> cfg_workingDir = Val ''/srv'', cfg_env = Val [(''A'', ''1''), (''B'', ''2'')] \<rparr>"

definition signalled_run :: ssh_run where
  "signalled_run =
     \<lparr> chunks = [(110, True, ''hi'')],
       outcome = Inr \<lparr> code = Null, stdout = ''hi'', stderr = [] \<rparr>,
       elapsed = 20,
       timer_first = False \<rparr>"

definition args_job :: Job where
  "args_job = job_of_row ((pending_row 1 5 10)\<lparr> args_col := Some [''a b'', ''c''] \<rparr>)"





section \<open>Verification: the atomic lease\<close>

lemma lease_update_simps:
  "id_col (lease_update now tok r) = id_col r"
  "status_col (lease_update now tok r) = RUNNING"
  "lock_token (lease_update now tok r) = Some tok"
  "processed_on (lease_update now tok r) = Some now"
  "attempts_made (lease_update now tok r) = attempts_made r + 1"
  "priority_col (lease_update now tok r) = priority_col r"
  "created_at (lease_update now tok r) = created_at r"
  "queue_id (lease_update now tok r) = queue_id r"
  by (simp_all add: lease_update_def)

lemma job_of_row_simps:
  "id' (job_of_row r) = Val (id_col r)"
  "status (job_of_row r) = status_col r"
  "lockToken (job_of_row r) = of_col (lock_token r)"
  "processedOn (job_of_row r) = of_col (processed_on r)"
  "attemptsMade (job_of_row r) = attempts_made r"
  "priority (job_of_row r) = priority_col r"
  "createdAt (job_of_row r) = Val (created_at r)"
  by (simp_all add: job_of_row_def new_Job_def)

lemma next_job_rows_eligible:
  "r \<in> set (next_job_rows db qn k) \<Longrightarrow>
     r \<in> set (job_tbl db) \<and> lease_eligible (queue_id_of_name db qn) r"
  unfolding next_job_rows_def by (auto dest: in_set_takeD)

lemma fetch_batch:
  "fst (fetchAndLockNextJobs now tok qn k db) =
     map (job_of_row \<circ> lease_update now tok)
       (filter (\<lambda>r. id_col r \<in> set (next_job db qn k)) (job_tbl db))"
  unfolding fetchAndLockNextJobs_def Let_def
  by (simp add: filter_map o_def lease_update_simps cong: filter_cong)

lemma fetch_tbl:
  "job_tbl (snd (fetchAndLockNextJobs now tok qn k db)) =
     map (\<lambda>r. if id_col r \<in> set (next_job db qn k) then lease_update now tok r else r) (job_tbl db)"
  unfolding fetchAndLockNextJobs_def Let_def by simp

lemma selected_row_eligible:
  assumes "distinct (map id_col (job_tbl db))" "r \<in> set (job_tbl db)"
    "id_col r \<in> set (next_job db qn k)"
  shows "lease_eligible (queue_id_of_name db qn) r"
proof -
  from assms(3) obtain r0 where r0: "r0 \<in> set (next_job_rows db qn k)" "id_col r0 = id_col r"
    by (auto simp: next_job_def)
  then have "r0 \<in> set (job_tbl db)" "lease_eligible (queue_id_of_name db qn) r0"
    using next_job_rows_eligible by blast+
  moreover have "r0 = r"
    using assms(1,2) r0(2) \<open>r0 \<in> set (job_tbl db)\<close> by (meson distinct_map inj_onD)
  ultimately show ?thesis by simp
qed

lemma later_lease_disjoint:
  "set (next_job (snd (fetchAndLockNextJobs now tok qn k db)) qn2 k2) \<inter> set (next_job db qn k) = {}"
proof -
  { fix i assume a: "i \<in> set (next_job (snd (fetchAndLockNextJobs now tok qn k db)) qn2 k2)"
      and b: "i \<in> set (next_job db qn k)"
    from a obtain r' where r': "r' \<in> set (job_tbl (snd (fetchAndLockNextJobs now tok qn k db)))"
       "status_col r' = PENDING" "id_col r' = i"
      by (auto simp: next_job_def lease_eligible_def dest!: next_job_rows_eligible)
    then obtain r where "r \<in> set (job_tbl db)"
       "r' = (if id_col r \<in> set (next_job db qn k) then lease_update now tok r else r)"
      by (auto simp: fetch_tbl)
    with r' b have False by (auto simp: lease_update_simps split: if_splits) }
  then show ?thesis by blast
qed

lemma fetch_ids_kept:
  "map id_col (job_tbl (snd (fetchAndLockNextJobs now tok qn k db))) = map id_col (job_tbl db)"
  unfolding fetch_tbl map_map by (rule map_cong[OF refl]) (simp add: lease_update_simps)

lemma fetch_batch_ids:
  "j \<in> set (fst (fetchAndLockNextJobs now tok qn k db)) \<Longrightarrow>
     \<exists>i \<in> set (next_job db qn k). id' j = Val i"
  unfolding fetch_batch by (auto simp: job_of_row_simps lease_update_simps)

lemma next_job_pending:
  "i \<in> set (next_job db qn k) \<Longrightarrow>
     \<exists>r \<in> set (job_tbl db). id_col r = i \<and> status_col r = PENDING"
  by (auto simp: next_job_def lease_eligible_def dest!: next_job_rows_eligible)

lemma fetch_not_pending:
  assumes "r' \<in> set (job_tbl (snd (fetchAndLockNextJobs now tok qn k db)))"
    and "id_col r' \<in> S \<union> set (next_job db qn k)"
    and "\<forall>r \<in> set (job_tbl db). id_col r \<in> S \<longrightarrow> status_col r \<noteq> PENDING"
  shows "status_col r' \<noteq> PENDING"
proof -
  from assms(1) obtain r where r: "r \<in> set (job_tbl db)"
    "r' = (if id_col r \<in> set (next_job db qn k) then lease_update now tok r else r)"
    unfolding fetch_tbl by auto
  show ?thesis
  proof (cases "id_col r \<in> set (next_job db qn k)")
    case True
    with r show ?thesis by (simp add: lease_update_simps)
  next
    case False
    with r assms(2,3) show ?thesis by auto
  qed
qed

lemma batch_ids_distinct:
  assumes "distinct (map id_col (job_tbl db))"
  shows "distinct (map id' (fst (fetchAndLockNextJobs now tok qn k db)))"
proof -
  have "map id' (fst (fetchAndLockNextJobs now tok qn k db))
          = map (Val \<circ> id_col) (filter (\<lambda>r. id_col r \<in> set (next_job db qn k)) (job_tbl db))"
    unfolding fetch_batch by (simp add: job_of_row_simps lease_update_simps)
  then show ?thesis using assms
    by (simp add: distinct_map inj_on_def distinct_map_filter)
qed

lemma leases_distinct:
  assumes "distinct (map id_col (job_tbl db))"
    and "\<forall>r \<in> set (job_tbl db). id_col r \<in> S \<longrightarrow> status_col r \<noteq> PENDING"
  shows "distinct (concat (map (map id') (fst (leases reqs db))))
         \<and> (\<forall>b \<in> set (fst (leases reqs db)). \<forall>j \<in> set b. id' j \<notin> Val ` S)"
  using assms
proof (induction reqs arbitrary: db S)
  case Nil
  then show ?case by simp
next
  case (Cons req reqs)
  obtain now tok qn k where req: "req = (now, tok, qn, k)" by (cases req)
  let ?f = "fetchAndLockNextJobs now tok qn k db"
  let ?S = "S \<union> set (next_job db qn k)"
  have d1: "distinct (map id_col (job_tbl (snd ?f)))"
    using Cons.prems(1) by (simp only: fetch_ids_kept)
  have inv1: "\<forall>r \<in> set (job_tbl (snd ?f)). id_col r \<in> ?S \<longrightarrow> status_col r \<noteq> PENDING"
    using fetch_not_pending[OF _ _ Cons.prems(2)] by blast
  from Cons.IH[OF d1 inv1]
  have ih: "distinct (concat (map (map id') (fst (leases reqs (snd ?f)))))"
    "\<forall>b \<in> set (fst (leases reqs (snd ?f))). \<forall>j \<in> set b. id' j \<notin> Val ` ?S"
    by blast+
  have bd: "distinct (map id' (fst ?f))" using batch_ids_distinct[OF Cons.prems(1)] .
  have bS: "\<forall>j \<in> set (fst ?f). id' j \<in> Val ` set (next_job db qn k) \<and> id' j \<notin> Val ` S"
  proof
    fix j assume "j \<in> set (fst ?f)"
    then obtain i where i: "i \<in> set (next_job db qn k)" "id' j = Val i"
      using fetch_batch_ids by blast
    then obtain r where "r \<in> set (job_tbl db)" "id_col r = i" "status_col r = PENDING"
      using next_job_pending by blast
    then have "i \<notin> S" using Cons.prems(2) by auto
    with i show "id' j \<in> Val ` set (next_job db qn k) \<and> id' j \<notin> Val ` S" by auto
  qed
  have l: "fst (leases (req # reqs) db) = fst ?f # fst (leases reqs (snd ?f))"
    by (simp add: req split: prod.splits)
  have disj: "set (map id' (fst ?f)) \<inter> set (concat (map (map id') (fst (leases reqs (snd ?f))))) = {}"
  proof -
    { fix x assume a: "x \<in> set (map id' (fst ?f))"
        and b: "x \<in> set (concat (map (map id') (fst (leases reqs (snd ?f)))))"
      from a bS have "x \<in> Val ` ?S" by auto
      moreover from b obtain bt j where "bt \<in> set (fst (leases reqs (snd ?f)))" "j \<in> set bt" "x = id' j"
        by auto
      ultimately have False using ih(2) by auto }
    then show ?thesis by blast
  qed
  have out: "\<forall>b \<in> set (fst ?f # fst (leases reqs (snd ?f))). \<forall>j \<in> set b. id' j \<notin> Val ` S"
  proof (intro ballI)
    fix b j assume b: "b \<in> set (fst ?f # fst (leases reqs (snd ?f)))" and j: "j \<in> set b"
    show "id' j \<notin> Val ` S"
    proof (cases "b = fst ?f")
      case True
      with j bS show ?thesis by auto
    next
      case False
      with b have "b \<in> set (fst (leases reqs (snd ?f)))" by simp
      with j ih(2) have "id' j \<notin> Val ` ?S" by auto
      then show ?thesis by auto
    qed
  qed
  have dc: "distinct (concat (map (map id') (fst ?f # fst (leases reqs (snd ?f)))))"
    using bd ih(1) disj by simp
  show ?case unfolding l using dc out by (rule conjI)
qed

text \<open>
  Claim C1. A lease selects only rows that are \<open>PENDING\<close> with \<open>lock_token\<close> \<open>NULL\<close> (in the
  queue of the worker); every job it returns is stored and returned with status
  \<open>RUNNING\<close>, the lock token of this lease, \<open>processed_on\<close> set and \<open>attempts_made\<close> one
  higher. Hence no job is returned twice by one lease, a lease that follows another
  returns none of the jobs the first returned, and in every sequence of leases all the
  jobs returned are different: at most one worker sees a pending job go to \<open>RUNNING\<close>
  under its token. The ids of table \<open>job\<close> are distinct (primary key).
\<close>

theorem fetchAndLockNextJobs_lease:
  assumes "distinct (map id_col (job_tbl db))"
    and "fetchAndLockNextJobs now tok qn k db = (batch, db')"
    and "fetchAndLockNextJobs now2 tok2 qn2 k2 db' = (batch2, db'')"
  shows "(\<forall>j \<in> set batch. \<exists>r \<in> set (job_tbl db).
            id' j = Val (id_col r) \<and> status_col r = PENDING \<and> lock_token r = None
            \<and> Some (queue_id r) = queue_id_of_name db qn
            \<and> lease_update now tok r \<in> set (job_tbl db')
            \<and> j = job_of_row (lease_update now tok r)
            \<and> status j = RUNNING \<and> lockToken j = Val tok \<and> processedOn j = Val now
            \<and> attemptsMade j = attempts_made r + 1)
       \<and> distinct (map id' batch)
       \<and> set (map id' batch) \<inter> set (map id' batch2) = {}
       \<and> (\<forall>reqs. distinct (concat (map (map id') (fst (leases reqs db)))))"
proof (intro conjI ballI allI)
  have b: "batch = fst (fetchAndLockNextJobs now tok qn k db)"
    and d: "db' = snd (fetchAndLockNextJobs now tok qn k db)"
    using assms(2) by simp_all
  have b2: "batch2 = fst (fetchAndLockNextJobs now2 tok2 qn2 k2 db')"
    using assms(3) by simp
  { fix j assume "j \<in> set batch"
    then obtain r where r: "r \<in> set (job_tbl db)" "id_col r \<in> set (next_job db qn k)"
        "j = job_of_row (lease_update now tok r)"
      unfolding b fetch_batch by auto
    have el: "lease_eligible (queue_id_of_name db qn) r"
      using selected_row_eligible[OF assms(1) r(1,2)] .
    have "lease_update now tok r \<in> set (job_tbl db')"
      unfolding d fetch_tbl using r(1,2) by force
    with r el show "\<exists>r \<in> set (job_tbl db).
            id' j = Val (id_col r) \<and> status_col r = PENDING \<and> lock_token r = None
            \<and> Some (queue_id r) = queue_id_of_name db qn
            \<and> lease_update now tok r \<in> set (job_tbl db')
            \<and> j = job_of_row (lease_update now tok r)
            \<and> status j = RUNNING \<and> lockToken j = Val tok \<and> processedOn j = Val now
            \<and> attemptsMade j = attempts_made r + 1"
      by (intro bexI[of _ r]) (simp_all add: job_of_row_simps lease_update_simps lease_eligible_def) }
  have ids: "map id' batch = map (Val \<circ> id_col) (filter (\<lambda>r. id_col r \<in> set (next_job db qn k)) (job_tbl db))"
    unfolding b fetch_batch by (simp add: job_of_row_simps lease_update_simps)
  show "distinct (map id' batch)"
    unfolding ids using assms(1)
    by (simp add: distinct_map inj_on_def distinct_map_filter)
  have "set (map id' batch) \<subseteq> Val ` set (next_job db qn k)"
    unfolding ids by auto
  moreover have "set (map id' batch2) \<subseteq> Val ` set (next_job db' qn2 k2)"
    unfolding b2 fetch_batch by (auto simp: job_of_row_simps lease_update_simps)
  ultimately show "set (map id' batch) \<inter> set (map id' batch2) = {}"
    using later_lease_disjoint[of now tok qn k db qn2 k2] unfolding d
    by (simp add: subset_iff image_iff disjoint_iff) (metis js.inject)
  show "distinct (concat (map (map id') (fst (leases reqs db))))" for reqs
    using leases_distinct[OF assms(1), of "{}" reqs] by simp
qed



lemma next_job_two1: "next_job two_job_db ''q'' 1 = [2]"
  by (simp add: next_job_def next_job_rows_def two_job_db_def pending_row_def lease_eligible_def
        queue_id_of_name_def lease_order_def)

theorem fetchAndLockNextJobs_lease_witness:
  "distinct (map id_col (job_tbl two_job_db))
   \<and> map id' (fst (fetchAndLockNextJobs 100 ''w1'' ''q'' 1 two_job_db)) = [Val 2]
   \<and> set (map id' (fst (fetchAndLockNextJobs 100 ''w1'' ''q'' 1 two_job_db)))
       \<inter> set (map id' (fst (fetchAndLockNextJobs 200 ''w2'' ''q'' 1
                 (snd (fetchAndLockNextJobs 100 ''w1'' ''q'' 1 two_job_db))))) = {}"
proof -
  have d: "distinct (map id_col (job_tbl two_job_db))"
    by (simp add: two_job_db_def pending_row_def)
  have i: "map id' (fst (fetchAndLockNextJobs 100 ''w1'' ''q'' 1 two_job_db)) = [Val 2]"
    unfolding fetch_batch next_job_two1
    by (simp add: two_job_db_def pending_row_def job_of_row_simps lease_update_simps)
  from fetchAndLockNextJobs_lease[OF d surjective_pairing surjective_pairing] d i
  show ?thesis by blast
qed
















section \<open>Verification: the log of a job\<close>

lemma appended_rows_snoc:
  "appended_rows i (pre @ [(t, m)]) =
     appended_rows i pre @ [\<lparr> job_id = i, sequence = Suc (length pre), message = m, log_created_at = t \<rparr>]"
  by (simp add: appended_rows_def enumerate_append_eq)

lemma appended_rows_length [simp]: "length (appended_rows i calls) = length calls"
  by (simp add: appended_rows_def)

lemma sequence_of_numbered:
  "map sequence
     (map (\<lambda>(s, t, m). \<lparr> job_id = i, sequence = s, message = m, log_created_at = t \<rparr>) xs)
     = map fst xs"
  by (induction xs) auto

lemma appended_rows_sequences: "map sequence (appended_rows i calls) = [1..<Suc (length calls)]"
  unfolding appended_rows_def sequence_of_numbered
  by (simp only: map_fst_enumerate plus_1_eq_Suc)

lemma appended_rows_job: "l \<in> set (appended_rows i calls) \<Longrightarrow> job_id l = i"
  by (auto simp: appended_rows_def)

lemma filter_not_in_take:
  assumes "distinct (map f xs)"
  shows "filter (\<lambda>x. f x \<notin> f ` set (take m xs)) xs = drop m xs"
proof -
  have d: "distinct (map f (take m xs) @ map f (drop m xs))"
    using assms by (metis append_take_drop_id map_append)
  let ?P = "\<lambda>x. f x \<notin> f ` set (take m xs)"
  have a: "filter ?P (take m xs) = []"
    by (auto simp: filter_empty_conv)
  have b: "filter ?P (drop m xs) = drop m xs"
    using d by (auto simp: filter_id_conv)
  have "filter ?P xs = filter ?P (take m xs @ drop m xs)"
    by (simp only: append_take_drop_id)
  also have "\<dots> = filter ?P (take m xs) @ filter ?P (drop m xs)"
    by (rule filter_append)
  also have "\<dots> = drop m xs"
    by (simp only: a b append_Nil)
  finally show ?thesis .
qed

lemma filter_job_clean:
  "filter (\<lambda>l. job_id l = i) (filter (\<lambda>l. \<not> (job_id l = i \<and> sequence l \<in> S)) tbl)
     = filter (\<lambda>l. sequence l \<notin> S) (filter (\<lambda>l. job_id l = i) tbl)"
  by (induction tbl) auto

lemma filter_other_clean:
  "filter (\<lambda>l. job_id l \<noteq> i) (filter (\<lambda>l. \<not> (job_id l = i \<and> sequence l \<in> S)) tbl)
     = filter (\<lambda>l. job_id l \<noteq> i) tbl"
  by (induction tbl) auto

lemma logs_desc_sorted:
  assumes "sorted (map sequence (filter (\<lambda>l. job_id l = i) (job_log_tbl db)))"
  shows "logs_desc db i = rev (filter (\<lambda>l. job_id l = i) (job_log_tbl db))"
  unfolding logs_desc_def using assms by (simp add: sort_key_id_if_sorted)

lemma cleanOldLogs_tbl:
  assumes "id' j = Val i" "i \<noteq> 0" "keepLogs j \<noteq> 0"
  shows "job_log_tbl (cleanOldLogs j db) =
           filter (\<lambda>l. \<not> (job_id l = i
                        \<and> sequence l \<in> set (map sequence (drop (keepLogs j) (logs_desc db i)))))
             (job_log_tbl db)"
  using assms by (auto simp: cleanOldLogs_def Let_def)

lemma cleanOldLogs_rows:
  assumes "id' j = Val i" "i \<noteq> 0"
    and "sorted (map sequence (filter (\<lambda>l. job_id l = i) (job_log_tbl db)))"
    and "distinct (map sequence (filter (\<lambda>l. job_id l = i) (job_log_tbl db)))"
  shows "filter (\<lambda>l. job_id l = i) (job_log_tbl (cleanOldLogs j db)) =
           drop (retained_from (keepLogs j) (length (filter (\<lambda>l. job_id l = i) (job_log_tbl db))))
             (filter (\<lambda>l. job_id l = i) (job_log_tbl db))"
    and "filter (\<lambda>l. job_id l \<noteq> i) (job_log_tbl (cleanOldLogs j db)) =
           filter (\<lambda>l. job_id l \<noteq> i) (job_log_tbl db)"
    and "job_tbl (cleanOldLogs j db) = job_tbl db"
proof -
  let ?rows = "filter (\<lambda>l. job_id l = i) (job_log_tbl db)"
  let ?K = "keepLogs j"
  have ld: "logs_desc db i = rev ?rows" using logs_desc_sorted[OF assms(3)] .
  have dr: "drop ?K (rev ?rows) = rev (take (length ?rows - ?K) ?rows)"
    by (rule drop_rev)
  have S: "set (map sequence (drop ?K (logs_desc db i))) = sequence ` set (take (length ?rows - ?K) ?rows)"
    unfolding ld dr by simp
  show "filter (\<lambda>l. job_id l = i) (job_log_tbl (cleanOldLogs j db)) =
           drop (retained_from ?K (length ?rows)) ?rows"
  proof (cases "?K = 0")
    case True
    then show ?thesis by (simp add: cleanOldLogs_def retained_from_def)
  next
    case False
    have "filter (\<lambda>l. job_id l = i) (job_log_tbl (cleanOldLogs j db))
            = filter (\<lambda>l. sequence l \<notin> sequence ` set (take (length ?rows - ?K) ?rows)) ?rows"
      unfolding cleanOldLogs_tbl[OF assms(1,2) False] filter_job_clean S ..
    also have "\<dots> = drop (length ?rows - ?K) ?rows"
      using filter_not_in_take[OF assms(4)] .
    finally show ?thesis using False by (simp add: retained_from_def)
  qed
  show "filter (\<lambda>l. job_id l \<noteq> i) (job_log_tbl (cleanOldLogs j db)) =
           filter (\<lambda>l. job_id l \<noteq> i) (job_log_tbl db)"
  proof (cases "?K = 0")
    case True
    then show ?thesis by (simp add: cleanOldLogs_def)
  next
    case False
    show ?thesis unfolding cleanOldLogs_tbl[OF assms(1,2) False] filter_other_clean ..
  qed
  show "job_tbl (cleanOldLogs j db) = job_tbl db"
    by (simp add: cleanOldLogs_def Let_def)
qed


lemma retained_from_le: "retained_from K n \<le> n"
  by (simp add: retained_from_def)

lemma retained_from_step:
  "retained_from K (Suc n - retained_from K n) + retained_from K n = retained_from K (Suc n)"
  unfolding retained_from_def by (cases "K = 0"; cases "K \<le> n"; simp)

lemma retained_rows_sequences:
  "map sequence (drop (retained_from K (length pre)) (appended_rows i pre))
     = [Suc (retained_from K (length pre))..<Suc (length pre)]"
  by (simp add: appended_rows_sequences del: upt_Suc flip: drop_map)

lemma addLog_step:
  assumes idj: "id' j = Val i" "i \<noteq> 0"
    and ex: "i \<in> set (map id_col (job_tbl db))"
    and inv: "filter (\<lambda>l. job_id l = i) (job_log_tbl db)
                = drop (retained_from (keepLogs j) (length pre)) (appended_rows i pre)"
  shows "next_sequence db i = Suc (length pre)"
    and "\<exists>db'. addLog t m j db = Inr db' \<and> job_tbl db' = job_tbl db
           \<and> filter (\<lambda>l. job_id l = i) (job_log_tbl db')
               = drop (retained_from (keepLogs j) (Suc (length pre)))
                   (appended_rows i (pre @ [(t, m)]))
           \<and> filter (\<lambda>l. job_id l \<noteq> i) (job_log_tbl db')
               = filter (\<lambda>l. job_id l \<noteq> i) (job_log_tbl db)"
proof -
  let ?K = "keepLogs j"
  let ?n = "length pre"
  let ?c = "retained_from ?K ?n"
  let ?rows = "filter (\<lambda>l. job_id l = i) (job_log_tbl db)"
  let ?new = "\<lparr> job_id = i, sequence = Suc ?n, message = m, log_created_at = t \<rparr>"
  have seqs: "map sequence ?rows = [Suc ?c..<Suc ?n]"
    unfolding inv by (rule retained_rows_sequences)
  have srt: "sorted (map sequence ?rows)" unfolding seqs by (rule sorted_upt)
  have ld: "logs_desc db i = rev ?rows" using logs_desc_sorted[OF srt] .
  show ns: "next_sequence db i = Suc ?n"
  proof (cases "?n = 0")
    case True
    then have "?rows = []" unfolding inv by (simp add: appended_rows_def)
    then show ?thesis using True by (simp add: next_sequence_def ld)
  next
    case False
    then have lt: "?c < ?n" by (simp add: retained_from_def)
    have "map sequence ?rows \<noteq> []" unfolding seqs using lt by (simp del: upt_Suc)
    then have ne: "?rows \<noteq> []" by auto
    have "sequence (last ?rows) = last (map sequence ?rows)" using ne by (simp add: last_map)
    also have "\<dots> = ?n" unfolding seqs using lt by (simp del: upt_Suc)
    finally have "sequence (last ?rows) = ?n" .
    moreover have "take 1 (rev ?rows) = [last ?rows]"
      using ne by (cases "?rows" rule: rev_cases) simp_all
    ultimately show ?thesis by (simp add: next_sequence_def ld)
  qed
  have fresh: "(i, Suc ?n) \<notin> set (map (\<lambda>l. (job_id l, sequence l)) (job_log_tbl db))"
  proof
    assume "(i, Suc ?n) \<in> set (map (\<lambda>l. (job_id l, sequence l)) (job_log_tbl db))"
    then obtain l where "l \<in> set ?rows" "sequence l = Suc ?n" by auto
    then have "Suc ?n \<in> set (map sequence ?rows)" by force
    then show False unfolding seqs by (simp del: upt_Suc)
  qed
  let ?db1 = "db\<lparr> job_log_tbl := job_log_tbl db @ [?new] \<rparr>"
  have al: "addLog t m j db = Inr (cleanOldLogs j ?db1)"
    using idj ex fresh by (simp add: addLog_def Let_def ns)
  have rows1: "filter (\<lambda>l. job_id l = i) (job_log_tbl ?db1)
                 = drop ?c (appended_rows i (pre @ [(t, m)]))"
    using retained_from_le[of ?K ?n] by (simp add: inv appended_rows_snoc)
  have seqs1: "map sequence (filter (\<lambda>l. job_id l = i) (job_log_tbl ?db1)) = [Suc ?c..<Suc (Suc ?n)]"
    unfolding rows1 by (simp add: appended_rows_sequences del: upt_Suc flip: drop_map)
  have s1: "sorted (map sequence (filter (\<lambda>l. job_id l = i) (job_log_tbl ?db1)))"
    and d1: "distinct (map sequence (filter (\<lambda>l. job_id l = i) (job_log_tbl ?db1)))"
    unfolding seqs1 by (rule sorted_upt, rule distinct_upt)
  have len1: "length (filter (\<lambda>l. job_id l = i) (job_log_tbl ?db1)) = Suc ?n - ?c"
    unfolding rows1 by simp
  have "filter (\<lambda>l. job_id l = i) (job_log_tbl (cleanOldLogs j ?db1))
          = drop (retained_from ?K (Suc ?n - ?c)) (filter (\<lambda>l. job_id l = i) (job_log_tbl ?db1))"
    using cleanOldLogs_rows(1)[OF idj s1 d1] unfolding len1 .
  also have "\<dots> = drop (retained_from ?K (Suc ?n - ?c)) (drop ?c (appended_rows i (pre @ [(t, m)])))"
    unfolding rows1 ..
  also have "\<dots> = drop (retained_from ?K (Suc ?n)) (appended_rows i (pre @ [(t, m)]))"
    unfolding drop_drop retained_from_step ..
  finally have r: "filter (\<lambda>l. job_id l = i) (job_log_tbl (cleanOldLogs j ?db1))
          = drop (retained_from ?K (Suc ?n)) (appended_rows i (pre @ [(t, m)]))" .
  have o: "filter (\<lambda>l. job_id l \<noteq> i) (job_log_tbl (cleanOldLogs j ?db1))
          = filter (\<lambda>l. job_id l \<noteq> i) (job_log_tbl db)"
    unfolding cleanOldLogs_rows(2)[OF idj s1 d1] by simp
  have jt: "job_tbl (cleanOldLogs j ?db1) = job_tbl db"
    unfolding cleanOldLogs_rows(3)[OF idj s1 d1] by simp
  show "\<exists>db'. addLog t m j db = Inr db' \<and> job_tbl db' = job_tbl db
           \<and> filter (\<lambda>l. job_id l = i) (job_log_tbl db')
               = drop (retained_from (keepLogs j) (Suc (length pre)))
                   (appended_rows i (pre @ [(t, m)]))
           \<and> filter (\<lambda>l. job_id l \<noteq> i) (job_log_tbl db')
               = filter (\<lambda>l. job_id l \<noteq> i) (job_log_tbl db)"
    using al r o jt by blast
qed

lemma addLogs_invariant:
  assumes idj: "id' j = Val i" "i \<noteq> 0"
    and ex: "i \<in> set (map id_col (job_tbl db))"
    and inv: "filter (\<lambda>l. job_id l = i) (job_log_tbl db)
                = drop (retained_from (keepLogs j) (length pre)) (appended_rows i pre)"
  shows "\<exists>db'. addLogs calls j db = Inr db' \<and> job_tbl db' = job_tbl db
           \<and> filter (\<lambda>l. job_id l = i) (job_log_tbl db')
               = drop (retained_from (keepLogs j) (length (pre @ calls)))
                   (appended_rows i (pre @ calls))
           \<and> filter (\<lambda>l. job_id l \<noteq> i) (job_log_tbl db')
               = filter (\<lambda>l. job_id l \<noteq> i) (job_log_tbl db)
           \<and> assigned_sequences calls j db = [Suc (length pre)..<Suc (length (pre @ calls))]"
  using ex inv
proof (induction calls arbitrary: db pre)
  case Nil
  then show ?case by simp
next
  case (Cons c calls)
  obtain t m where c: "c = (t, m)" by (cases c)
  have ns: "next_sequence db i = Suc (length pre)"
    using addLog_step(1)[OF idj Cons.prems(1) Cons.prems(2)] .
  from addLog_step(2)[OF idj Cons.prems(1) Cons.prems(2), of t m]
  obtain db1 where a: "addLog t m j db = Inr db1" and jt: "job_tbl db1 = job_tbl db"
    and r: "filter (\<lambda>l. job_id l = i) (job_log_tbl db1)
               = drop (retained_from (keepLogs j) (length (pre @ [(t, m)])))
                   (appended_rows i (pre @ [(t, m)]))"
    and o: "filter (\<lambda>l. job_id l \<noteq> i) (job_log_tbl db1)
               = filter (\<lambda>l. job_id l \<noteq> i) (job_log_tbl db)"
    by auto
  have ex1: "i \<in> set (map id_col (job_tbl db1))" using Cons.prems(1) jt by simp
  from Cons.IH[OF ex1 r]
  obtain db' where "addLogs calls j db1 = Inr db'" "job_tbl db' = job_tbl db1"
    "filter (\<lambda>l. job_id l = i) (job_log_tbl db')
               = drop (retained_from (keepLogs j) (length ((pre @ [(t, m)]) @ calls)))
                   (appended_rows i ((pre @ [(t, m)]) @ calls))"
    "filter (\<lambda>l. job_id l \<noteq> i) (job_log_tbl db')
               = filter (\<lambda>l. job_id l \<noteq> i) (job_log_tbl db1)"
    "assigned_sequences calls j db1
       = [Suc (length (pre @ [(t, m)]))..<Suc (length ((pre @ [(t, m)]) @ calls))]"
    by blast
  then show ?case
    using a jt o ns idj by (simp add: c upt_rec[of "Suc (length pre)"] del: upt_Suc)
qed


text \<open>
  Claim C3. For a job with \<open>keepLogs = K\<close>, \<open>K \<ge> 1\<close>, whose row exists and which has no log
  yet, every sequence of \<open>N\<close> calls of \<open>addLog\<close> succeeds and leaves \<open>min N K\<close> log rows of the
  job: the last \<open>K\<close> of the rows appended, which carry the sequence numbers \<open>N - K + 1\<close> to
  \<open>N\<close>, the largest assigned. The log rows of other jobs are untouched.
\<close>

theorem addLog_retention_bound:
  assumes "id' j = Val i" and "i \<noteq> 0" and "i \<in> set (map id_col (job_tbl db))"
    and "filter (\<lambda>l. job_id l = i) (job_log_tbl db) = []"
    and "1 \<le> keepLogs j"
  shows "\<exists>db'. addLogs calls j db = Inr db'
           \<and> length (filter (\<lambda>l. job_id l = i) (job_log_tbl db'))
               = min (length calls) (keepLogs j)
           \<and> filter (\<lambda>l. job_id l = i) (job_log_tbl db')
               = drop (length calls - keepLogs j) (appended_rows i calls)
           \<and> live_sequences db' i = [Suc (length calls - keepLogs j)..<Suc (length calls)]
           \<and> filter (\<lambda>l. job_id l \<noteq> i) (job_log_tbl db')
               = filter (\<lambda>l. job_id l \<noteq> i) (job_log_tbl db)"
proof -
  have inv: "filter (\<lambda>l. job_id l = i) (job_log_tbl db)
               = drop (retained_from (keepLogs j) (length ([] :: (time \<times> string) list)))
                   (appended_rows i [])"
    using assms(4) by (simp add: appended_rows_def)
  have rf: "retained_from (keepLogs j) (length calls) = length calls - keepLogs j"
    using assms(5) by (simp add: retained_from_def)
  from addLogs_invariant[OF assms(1,2,3) inv, of calls]
  obtain db' where a: "addLogs calls j db = Inr db'"
    and r: "filter (\<lambda>l. job_id l = i) (job_log_tbl db')
              = drop (length calls - keepLogs j) (appended_rows i calls)"
    and o: "filter (\<lambda>l. job_id l \<noteq> i) (job_log_tbl db')
              = filter (\<lambda>l. job_id l \<noteq> i) (job_log_tbl db)"
    unfolding append_Nil rf by blast
  have "live_sequences db' i = [Suc (length calls - keepLogs j)..<Suc (length calls)]"
    unfolding live_sequences_def r using retained_rows_sequences[of "keepLogs j" calls i]
    unfolding rf .
  moreover have "length (filter (\<lambda>l. job_id l = i) (job_log_tbl db'))
                   = min (length calls) (keepLogs j)"
    unfolding r by simp
  ultimately show ?thesis using a r o by blast
qed

theorem addLog_retention_bound_witness:
  "id' (job_of_row (pending_row 1 5 10)) = Val 1 \<and> (1::nat) \<noteq> 0
   \<and> 1 \<in> set (map id_col (job_tbl two_job_db))
   \<and> filter (\<lambda>l. job_id l = 1) (job_log_tbl two_job_db) = []
   \<and> 1 \<le> keepLogs (job_of_row (pending_row 1 5 10))
   \<and> (\<exists>db'. addLogs five_logs (job_of_row (pending_row 1 5 10)) two_job_db = Inr db'
         \<and> length (filter (\<lambda>l. job_id l = 1) (job_log_tbl db')) = 3
         \<and> map message (filter (\<lambda>l. job_id l = 1) (job_log_tbl db'))
             = [''log 3'', ''log 4'', ''log 5'']
         \<and> live_sequences db' 1 = [3, 4, 5])"
proof -
  let ?j = "job_of_row (pending_row 1 5 10)"
  have h1: "id' ?j = Val 1" by (simp add: job_of_row_def new_Job_def pending_row_def)
  have h2: "(1::nat) \<noteq> 0" by simp
  have h3: "1 \<in> set (map id_col (job_tbl two_job_db))"
    by (simp add: two_job_db_def pending_row_def)
  have h4: "filter (\<lambda>l. job_id l = 1) (job_log_tbl two_job_db) = []"
    by (simp add: two_job_db_def)
  have k: "keepLogs ?j = 3" by (simp add: job_of_row_def new_Job_def pending_row_def)
  have h5: "1 \<le> keepLogs ?j" unfolding k by simp
  have rows: "drop (length five_logs - 3) (appended_rows 1 five_logs)
     = [\<lparr> job_id = 1, sequence = 3, message = ''log 3'', log_created_at = 3 \<rparr>,
        \<lparr> job_id = 1, sequence = 4, message = ''log 4'', log_created_at = 4 \<rparr>,
        \<lparr> job_id = 1, sequence = 5, message = ''log 5'', log_created_at = 5 \<rparr>]"
    by (simp add: five_logs_def appended_rows_def enumerate_eq_zip upt_rec)
  have up: "[Suc (length five_logs - 3)..<Suc (length five_logs)] = [3, 4, 5]"
    by (simp add: five_logs_def upt_rec)
  from addLog_retention_bound[OF h1 h2 h3 h4 h5, of five_logs]
  obtain db' where "addLogs five_logs ?j two_job_db = Inr db'"
    "length (filter (\<lambda>l. job_id l = 1) (job_log_tbl db')) = min (length five_logs) 3"
    "filter (\<lambda>l. job_id l = 1) (job_log_tbl db') = drop (length five_logs - 3) (appended_rows 1 five_logs)"
    "live_sequences db' 1 = [Suc (length five_logs - 3)..<Suc (length five_logs)]"
    unfolding k by blast
  then have "addLogs five_logs ?j two_job_db = Inr db'
         \<and> length (filter (\<lambda>l. job_id l = 1) (job_log_tbl db')) = 3
         \<and> map message (filter (\<lambda>l. job_id l = 1) (job_log_tbl db'))
             = [''log 3'', ''log 4'', ''log 5'']
         \<and> live_sequences db' 1 = [3, 4, 5]"
    unfolding rows up by (simp add: five_logs_def)
  then have "\<exists>db'. addLogs five_logs ?j two_job_db = Inr db'
         \<and> length (filter (\<lambda>l. job_id l = 1) (job_log_tbl db')) = 3
         \<and> map message (filter (\<lambda>l. job_id l = 1) (job_log_tbl db'))
             = [''log 3'', ''log 4'', ''log 5'']
         \<and> live_sequences db' 1 = [3, 4, 5]" ..
  with h1 h2 h3 h4 h5 show ?thesis by (intro conjI)
qed

text \<open>
  Claim C4. For a job whose row exists and which has no log yet, whatever \<open>keepLogs\<close> is,
  \<open>N\<close> calls of \<open>addLog\<close> assign the sequence numbers \<open>1, 2, ..., N\<close> in this order, and the
  live sequence numbers after them are \<open>m + 1, ..., N\<close> for some \<open>m \<le> N\<close>: a contiguous
  suffix. The statement holds for every call list, hence after every prefix of one.
\<close>

theorem addLog_dense_sequences:
  assumes "id' j = Val i" and "i \<noteq> 0" and "i \<in> set (map id_col (job_tbl db))"
    and "filter (\<lambda>l. job_id l = i) (job_log_tbl db) = []"
  shows "assigned_sequences calls j db = [1..<Suc (length calls)]
         \<and> (\<exists>db'. addLogs calls j db = Inr db'
               \<and> (\<exists>m \<le> length calls. live_sequences db' i = [Suc m..<Suc (length calls)]))"
proof -
  have inv: "filter (\<lambda>l. job_id l = i) (job_log_tbl db)
               = drop (retained_from (keepLogs j) (length ([] :: (time \<times> string) list)))
                   (appended_rows i [])"
    using assms(4) by (simp add: appended_rows_def)
  from addLogs_invariant[OF assms(1,2,3) inv, of calls]
  obtain db' where a: "addLogs calls j db = Inr db'"
    and r: "filter (\<lambda>l. job_id l = i) (job_log_tbl db')
              = drop (retained_from (keepLogs j) (length calls)) (appended_rows i calls)"
    and s: "assigned_sequences calls j db = [Suc 0..<Suc (length calls)]"
    unfolding append_Nil list.size by blast
  have "live_sequences db' i
          = [Suc (retained_from (keepLogs j) (length calls))..<Suc (length calls)]"
    unfolding live_sequences_def r by (rule retained_rows_sequences)
  then have "\<exists>m \<le> length calls. live_sequences db' i = [Suc m..<Suc (length calls)]"
    using retained_from_le[of "keepLogs j" "length calls"] by blast
  then show ?thesis using a s by (simp del: upt_Suc)
qed

theorem addLog_dense_sequences_witness:
  "id' (job_of_row (pending_row 2 0 20)) = Val 2 \<and> (2::nat) \<noteq> 0
   \<and> 2 \<in> set (map id_col (job_tbl two_job_db))
   \<and> filter (\<lambda>l. job_id l = 2) (job_log_tbl two_job_db) = []
   \<and> assigned_sequences five_logs (job_of_row (pending_row 2 0 20)) two_job_db = [1, 2, 3, 4, 5]"
proof -
  let ?j = "job_of_row (pending_row 2 0 20)"
  have h1: "id' ?j = Val 2" by (simp add: job_of_row_def new_Job_def pending_row_def)
  have h2: "(2::nat) \<noteq> 0" by simp
  have h3: "2 \<in> set (map id_col (job_tbl two_job_db))"
    by (simp add: two_job_db_def pending_row_def)
  have h4: "filter (\<lambda>l. job_id l = 2) (job_log_tbl two_job_db) = []"
    by (simp add: two_job_db_def)
  have up: "[1..<Suc (length five_logs)] = [1, 2, 3, 4, 5]"
    by (simp add: five_logs_def upt_rec)
  from addLog_dense_sequences[OF h1 h2 h3 h4, of five_logs]
  have "assigned_sequences five_logs ?j two_job_db = [1, 2, 3, 4, 5]"
    unfolding up by (rule conjunct1)
  with h1 h2 h3 h4 show ?thesis by (intro conjI)
qed

section \<open>Verification: writing a job and the state transitions\<close>

lemma find_map_same_id:
  assumes "\<And>r. id_col (f r) = id_col r"
  shows "find (\<lambda>r. id_col r = k) (map f xs) = map_option f (find (\<lambda>r. id_col r = k) xs)"
  by (induction xs) (simp_all add: assms)

lemma job_update_Inr:
  assumes "job_by_id db i = Some old" and "update_accepted i (d old) db"
    and "\<And>r. id_col (d r) = id_col r"
  shows "\<exists>db'. job_update now i d db = Inr db'
           \<and> job_by_id db' i = Some ((d old)\<lparr> updated_at := now \<rparr>)
           \<and> (\<forall>k. k \<noteq> i \<longrightarrow> job_by_id db' k = job_by_id db k)
           \<and> queue_tbl db' = queue_tbl db \<and> job_log_tbl db' = job_log_tbl db
           \<and> notifications db' = notifications db \<and> job_id_seq db' = job_id_seq db
           \<and> map id_col (job_tbl db') = map id_col (job_tbl db)"
proof -
  let ?f = "\<lambda>r. if id_col r = i then (d r)\<lparr> updated_at := now \<rparr> else r"
  let ?db' = "db\<lparr> job_tbl := map ?f (job_tbl db) \<rparr>"
  have idf: "\<And>r. id_col (?f r) = id_col r" by (simp add: assms(3))
  have u: "job_update now i d db = Inr ?db'"
    using assms(1,2)
    by (simp add: job_update_def job_by_id_def update_accepted_def custom_id_clash_def Let_def)
  have oi: "id_col old = i"
    using assms(1) unfolding job_by_id_def by (auto simp: find_Some_iff)
  have "job_by_id ?db' i = map_option ?f (job_by_id db i)"
    unfolding job_by_id_def using find_map_same_id[of ?f i, OF idf] by simp
  then have a: "job_by_id ?db' i = Some ((d old)\<lparr> updated_at := now \<rparr>)"
    using assms(1) oi by simp
  have b: "job_by_id ?db' k = job_by_id db k" if "k \<noteq> i" for k
  proof -
    have "job_by_id ?db' k = map_option ?f (job_by_id db k)"
      unfolding job_by_id_def using find_map_same_id[of ?f k, OF idf] by simp
    moreover have "id_col r = k" if "job_by_id db k = Some r" for r
      using that unfolding job_by_id_def by (auto simp: find_Some_iff)
    ultimately show ?thesis using that by (cases "job_by_id db k") auto
  qed
  have c: "map id_col (job_tbl ?db') = map id_col (job_tbl db)"
    by (simp add: o_def assms(3))
  show ?thesis using u a b c by (intro exI[of _ ?db']) simp
qed

lemma job_update_Inl_missing:
  "job_by_id db i = None \<Longrightarrow> job_update now i d db = Inl RecordNotFound"
  by (simp add: job_update_def job_by_id_def)

lemma jobData_id [simp]: "id_col (jobData j r) = id_col r"
  by (simp add: jobData_def)

lemma retry_data_id [simp]: "id_col (retry_data r) = id_col r"
  by (simp add: retry_data_def)

lemma cancel_data_id [simp]: "id_col (cancel_data now reason r) = id_col r"
  by (simp add: cancel_data_def)

lemma save_update_Inr:
  assumes "id' j = Val i" "i \<noteq> 0" "job_by_id db i = Some old"
    and "update_accepted i (jobData j old) db"
  shows "\<exists>db'. save now j db = Inr (j\<lparr> updatedAt := Val now \<rparr>, db')
           \<and> job_by_id db' i = Some ((jobData j old)\<lparr> updated_at := now \<rparr>)
           \<and> (\<forall>k. k \<noteq> i \<longrightarrow> job_by_id db' k = job_by_id db k)
           \<and> queue_tbl db' = queue_tbl db \<and> job_log_tbl db' = job_log_tbl db
           \<and> notifications db' = notifications db \<and> job_id_seq db' = job_id_seq db
           \<and> map id_col (job_tbl db') = map id_col (job_tbl db)"
proof -
  from job_update_Inr[OF assms(3), of "jobData j" now, OF assms(4) jobData_id]
  obtain db' where u: "job_update now i (jobData j) db = Inr db'"
    and rest: "job_by_id db' i = Some ((jobData j old)\<lparr> updated_at := now \<rparr>)"
      "\<forall>k. k \<noteq> i \<longrightarrow> job_by_id db' k = job_by_id db k"
      "queue_tbl db' = queue_tbl db" "job_log_tbl db' = job_log_tbl db"
      "notifications db' = notifications db" "job_id_seq db' = job_id_seq db"
      "map id_col (job_tbl db') = map id_col (job_tbl db)"
    by blast
  have "save now j db = Inr (j\<lparr> updatedAt := Val now \<rparr>, db')"
    using assms(1,2) u by (simp add: save_def)
  with rest show ?thesis by blast
qed

lemma update_accepted_jobData:
  "customId j1 = customId j \<Longrightarrow> queueId j1 = queueId j \<Longrightarrow>
     update_accepted i (jobData j1 old) db = update_accepted i (jobData j old) db"
  by (simp add: update_accepted_def jobData_def custom_id_clash_def)


lemma moveToRunning_row:
  assumes "id' j = Val i" "i \<noteq> 0" "job_by_id db i = Some old"
    and "update_accepted i (jobData j old) db"
  shows "\<exists>j' db' new. moveToRunning now tok j db = Inr (j', db')
           \<and> job_by_id db' i = Some new
           \<and> new = (jobData (j\<lparr> status := RUNNING, lockToken := Val tok,
                               processedOn := Val now,
                               attemptsMade := attemptsMade j + 1 \<rparr>) old)
                     \<lparr> updated_at := now \<rparr>
           \<and> j' = j\<lparr> status := RUNNING, lockToken := Val tok, processedOn := Val now,
                     attemptsMade := attemptsMade j + 1, updatedAt := Val now \<rparr>
           \<and> (\<forall>k. k \<noteq> i \<longrightarrow> job_by_id db' k = job_by_id db k)"
proof -
  let ?j1 = "j\<lparr> status := RUNNING, lockToken := Val tok, processedOn := Val now,
                attemptsMade := attemptsMade j + 1 \<rparr>"
  have acc: "update_accepted i (jobData ?j1 old) db"
    using assms(4) by (simp add: update_accepted_jobData[of ?j1 j])
  have idj: "id' ?j1 = Val i" using assms(1) by simp
  from save_update_Inr[OF idj assms(2,3) acc, of now]
  obtain db' where "save now ?j1 db = Inr (?j1\<lparr> updatedAt := Val now \<rparr>, db')"
    "job_by_id db' i = Some ((jobData ?j1 old)\<lparr> updated_at := now \<rparr>)"
    "\<forall>k. k \<noteq> i \<longrightarrow> job_by_id db' k = job_by_id db k"
    by blast
  then show ?thesis using assms(1,2) by (simp add: moveToRunning_def)
qed

lemma done_job: "id' (job_of_row done_row) = Val 1" "job_by_id done_db 1 = Some done_row"
  "update_accepted 1 (jobData (job_of_row done_row) done_row) done_db"
  by (simp_all add: job_of_row_def new_Job_def done_row_def pending_row_def job_by_id_def
        done_db_def two_job_db_def update_accepted_def queue_exists_def custom_id_clash_def
        jobData_def)

text \<open>
  Claim C6, as stated, fails: \<open>moveToRunning\<close> makes no test of the status. On job 1 of
  \<open>done_db\<close>, which is \<open>COMPLETED\<close>, it succeeds and stores \<open>RUNNING\<close>, the new lock token and
  a second attempt.
\<close>

theorem moveToRunning_from_completed:
  "status_col done_row = COMPLETED
   \<and> job_by_id done_db 1 = Some done_row
   \<and> \<not> isl (moveToRunning 100 ''t'' (job_of_row done_row) done_db)
   \<and> map_option (\<lambda>r. (status_col r, lock_token r, attempts_made r))
       (job_by_id (snd (projr (moveToRunning 100 ''t'' (job_of_row done_row) done_db))) 1)
       = Some (RUNNING, Some ''t'', 2)"
proof -
  have one: "(1::nat) \<noteq> 0" by simp
  from moveToRunning_row[OF done_job(1) one done_job(2,3), of 100 "''t''"]
  obtain j' db' new where m: "moveToRunning 100 ''t'' (job_of_row done_row) done_db = Inr (j', db')"
    and n: "job_by_id db' 1 = Some new"
      "new = (jobData ((job_of_row done_row)\<lparr> status := RUNNING, lockToken := Val ''t'',
                 processedOn := Val 100,
                 attemptsMade := attemptsMade (job_of_row done_row) + 1 \<rparr>) done_row)
               \<lparr> updated_at := 100 \<rparr>"
    by blast
  have "attemptsMade (job_of_row done_row) = 1"
    by (simp add: job_of_row_def new_Job_def done_row_def)
  then show ?thesis using m n done_job(2)
    by (simp add: jobData_def done_row_def)
qed

text \<open>
  Claim C6, amended. \<open>moveToRunning(lockToken)\<close> does not look at the status: for a job
  object with an id whose row exists and whose update the table accepts, it succeeds from
  every status and stores status \<open>RUNNING\<close>, \<open>lock_token = lockToken\<close>, \<open>processed_on = now\<close>
  and \<open>attempts_made\<close> equal to the \<open>attemptsMade\<close> of the object plus one; the object gets
  the same values and no other row changes.
\<close>

theorem moveToRunning_no_status_check:
  assumes "id' j = Val i" and "i \<noteq> 0" and "job_by_id db i = Some old"
    and "update_accepted i (jobData j old) db"
  shows "\<exists>j' db' new. moveToRunning now tok j db = Inr (j', db')
           \<and> job_by_id db' i = Some new
           \<and> status_col new = RUNNING \<and> lock_token new = Some tok
           \<and> processed_on new = Some now \<and> attempts_made new = attemptsMade j + 1
           \<and> status j' = RUNNING \<and> lockToken j' = Val tok \<and> processedOn j' = Val now
           \<and> attemptsMade j' = attemptsMade j + 1
           \<and> (\<forall>k. k \<noteq> i \<longrightarrow> job_by_id db' k = job_by_id db k)"
proof -
  from moveToRunning_row[OF assms, of now tok]
  obtain j' db' new where "moveToRunning now tok j db = Inr (j', db')"
    "job_by_id db' i = Some new"
    "new = (jobData (j\<lparr> status := RUNNING, lockToken := Val tok, processedOn := Val now,
                        attemptsMade := attemptsMade j + 1 \<rparr>) old)\<lparr> updated_at := now \<rparr>"
    "j' = j\<lparr> status := RUNNING, lockToken := Val tok, processedOn := Val now,
              attemptsMade := attemptsMade j + 1, updatedAt := Val now \<rparr>"
    "\<forall>k. k \<noteq> i \<longrightarrow> job_by_id db' k = job_by_id db k"
    by blast
  then show ?thesis by (simp add: jobData_def)
qed

theorem moveToRunning_no_status_check_witness:
  "id' (job_of_row done_row) = Val 1 \<and> (1::nat) \<noteq> 0
   \<and> job_by_id done_db 1 = Some done_row
   \<and> update_accepted 1 (jobData (job_of_row done_row) done_row) done_db
   \<and> (\<exists>j' db' new. moveToRunning 100 ''t'' (job_of_row done_row) done_db = Inr (j', db')
         \<and> job_by_id db' 1 = Some new \<and> status_col new = RUNNING)"
proof -
  have one: "(1::nat) \<noteq> 0" by simp
  from moveToRunning_no_status_check[OF done_job(1) one done_job(2,3), of 100 "''t''"]
  have "\<exists>j' db' new. moveToRunning 100 ''t'' (job_of_row done_row) done_db = Inr (j', db')
         \<and> job_by_id db' 1 = Some new \<and> status_col new = RUNNING"
    by blast
  with done_job one show ?thesis by (intro conjI)
qed


lemma leased_facts:
  "leased_job = job_of_row (lease_update 100 ''w'' (pending_row 2 0 20))"
  "job_by_id leased_db 2 = Some (lease_update 100 ''w'' (pending_row 2 0 20))"
  "job_tbl leased_db = [pending_row 1 5 10, lease_update 100 ''w'' (pending_row 2 0 20)]"
  "queue_tbl leased_db = queue_tbl two_job_db"
  "notifications leased_db = []"
proof -
  show t: "job_tbl leased_db = [pending_row 1 5 10, lease_update 100 ''w'' (pending_row 2 0 20)]"
    unfolding leased_db_def fetch_tbl next_job_two1
    by (simp add: two_job_db_def) (simp add: pending_row_def)
  show "leased_job = job_of_row (lease_update 100 ''w'' (pending_row 2 0 20))"
    unfolding leased_job_def fetch_batch next_job_two1
    by (simp add: two_job_db_def) (simp add: pending_row_def)
  show "job_by_id leased_db 2 = Some (lease_update 100 ''w'' (pending_row 2 0 20))"
    unfolding job_by_id_def t by (simp add: pending_row_def lease_update_def)
  show "queue_tbl leased_db = queue_tbl two_job_db"
    by (simp add: leased_db_def fetchAndLockNextJobs_def Let_def)
  show "notifications leased_db = []"
    by (simp add: leased_db_def fetchAndLockNextJobs_def Let_def two_job_db_def)
qed

lemma leased_accepted:
  "id' leased_job = Val 2"
  "update_accepted 2 (jobData leased_job (lease_update 100 ''w'' (pending_row 2 0 20))) leased_db"
  unfolding leased_facts(1) update_accepted_def queue_exists_def custom_id_clash_def leased_facts(3,4)
  by (simp_all add: job_of_row_def new_Job_def jobData_def lease_update_def pending_row_def
        two_job_db_def)

lemma moveToCancelled_row:
  assumes "id' j = Val i" "i \<noteq> 0" "job_by_id db i = Some old"
    and "update_accepted i (jobData j old) db"
  shows "\<exists>j' db' new. moveToCancelled now reason j db = Inr (j', db')
           \<and> job_by_id db' i = Some new
           \<and> new = (jobData (j\<lparr> status := CANCELLED, failedReason := Val reason,
                               finishedOn := Val now, lockToken := Null \<rparr>) old)
                     \<lparr> updated_at := now \<rparr>
           \<and> (\<forall>k. k \<noteq> i \<longrightarrow> job_by_id db' k = job_by_id db k)"
proof -
  let ?j1 = "j\<lparr> status := CANCELLED, failedReason := Val reason, finishedOn := Val now,
                lockToken := Null \<rparr>"
  have acc: "update_accepted i (jobData ?j1 old) db"
    using assms(4) by (simp add: update_accepted_jobData[of ?j1 j])
  have idj: "id' ?j1 = Val i" using assms(1) by simp
  from save_update_Inr[OF idj assms(2,3) acc, of now]
  obtain db' where "save now ?j1 db = Inr (?j1\<lparr> updatedAt := Val now \<rparr>, db')"
    "job_by_id db' i = Some ((jobData ?j1 old)\<lparr> updated_at := now \<rparr>)"
    "\<forall>k. k \<noteq> i \<longrightarrow> job_by_id db' k = job_by_id db k"
    by blast
  then show ?thesis using assms(1,2) by (simp add: moveToCancelled_def)
qed

lemma cancelJob_relation_missing:
  "cancelJob now i reason db
     = Inl (Context (''Error cancelling job '' @ show_nat i @ '': '') (UndefinedTable ''Job''))"
  by (simp add: cancelJob_def cancelJob_in_def select_id_for_update_def)

lemma cancelJob_in_guard:
  assumes "job_by_id db i = Some old" "status_col old \<noteq> PENDING"
  shows "isl (cancelJob_in rel now i reason db)"
  using assms unfolding cancelJob_in_def job_by_id_def Let_def
  by (simp split: sum.splits)

text \<open>
  Claim C5, as stated, fails for \<open>moveToCancelled\<close>, which makes no test of the status: on
  the leased job 2 of \<open>leased_db\<close>, which is \<open>RUNNING\<close>, it succeeds and stores \<open>CANCELLED\<close>.
\<close>

theorem moveToCancelled_from_running:
  "map_option status_col (job_by_id leased_db 2) = Some RUNNING
   \<and> \<not> isl (moveToCancelled 150 ''stop'' leased_job leased_db)
   \<and> map_option (\<lambda>r. (status_col r, failed_reason r, finished_on r, lock_token r))
       (job_by_id (snd (projr (moveToCancelled 150 ''stop'' leased_job leased_db))) 2)
       = Some (CANCELLED, Some ''stop'', Some 150, None)"
proof -
  have two: "(2::nat) \<noteq> 0" by simp
  from moveToCancelled_row[OF leased_accepted(1) two leased_facts(2) leased_accepted(2), of 150 "''stop''"]
  obtain j' db' new where m: "moveToCancelled 150 ''stop'' leased_job leased_db = Inr (j', db')"
    and n: "job_by_id db' 2 = Some new"
      "new = (jobData (leased_job\<lparr> status := CANCELLED, failedReason := Val ''stop'',
                 finishedOn := Val 150, lockToken := Null \<rparr>)
                (lease_update 100 ''w'' (pending_row 2 0 20)))\<lparr> updated_at := 150 \<rparr>"
    by blast
  show ?thesis using m n leased_facts(2)
    by (simp add: jobData_def lease_update_def)
qed

text \<open>
  Claim C5, amended. The static \<open>cancelJob\<close> on a job whose status is not \<open>PENDING\<close> fails
  with an error (the result carries no database: the transaction is rolled back and the
  row is as before), and so does its transaction whatever relation its raw query names:
  the test of the status stops it. \<open>moveToCancelled\<close> makes no test of the status: for a
  job object with an id whose row exists and whose update the table accepts, it succeeds
  from every status and stores status \<open>CANCELLED\<close>, \<open>failed_reason = reason\<close>,
  \<open>finished_on = now\<close> and \<open>lock_token = NULL\<close>, and no other row changes.
\<close>

theorem cancel_guard_only_in_cancelJob:
  assumes "job_by_id db i = Some old"
  shows "(status_col old \<noteq> PENDING \<longrightarrow>
            isl (cancelJob now i reason db) \<and> (\<forall>rel. isl (cancelJob_in rel now i reason db)))
         \<and> (id' j = Val i \<and> i \<noteq> 0 \<and> update_accepted i (jobData j old) db \<longrightarrow>
              (\<exists>j' db' new. moveToCancelled now reason j db = Inr (j', db')
                 \<and> job_by_id db' i = Some new
                 \<and> status_col new = CANCELLED \<and> failed_reason new = Some reason
                 \<and> finished_on new = Some now \<and> lock_token new = None
                 \<and> (\<forall>k. k \<noteq> i \<longrightarrow> job_by_id db' k = job_by_id db k)))"
proof (intro conjI impI allI)
  assume "status_col old \<noteq> PENDING"
  then show "isl (cancelJob_in rel now i reason db)" for rel
    using cancelJob_in_guard[OF assms] by simp
  then show "isl (cancelJob now i reason db)"
    by (simp add: cancelJob_def)
next
  assume a: "id' j = Val i \<and> i \<noteq> 0 \<and> update_accepted i (jobData j old) db"
  from moveToCancelled_row[OF _ _ assms, of j now reason] a
  obtain j' db' new where "moveToCancelled now reason j db = Inr (j', db')"
    "job_by_id db' i = Some new"
    "new = (jobData (j\<lparr> status := CANCELLED, failedReason := Val reason,
                        finishedOn := Val now, lockToken := Null \<rparr>) old)\<lparr> updated_at := now \<rparr>"
    "\<forall>k. k \<noteq> i \<longrightarrow> job_by_id db' k = job_by_id db k"
    by blast
  then show "\<exists>j' db' new. moveToCancelled now reason j db = Inr (j', db')
                 \<and> job_by_id db' i = Some new
                 \<and> status_col new = CANCELLED \<and> failed_reason new = Some reason
                 \<and> finished_on new = Some now \<and> lock_token new = None
                 \<and> (\<forall>k. k \<noteq> i \<longrightarrow> job_by_id db' k = job_by_id db k)"
    by (simp add: jobData_def)
qed

theorem cancel_guard_only_in_cancelJob_witness:
  "job_by_id leased_db 2 = Some (lease_update 100 ''w'' (pending_row 2 0 20))
   \<and> status_col (lease_update 100 ''w'' (pending_row 2 0 20)) \<noteq> PENDING
   \<and> isl (cancelJob 150 2 ''stop'' leased_db)
   \<and> id' leased_job = Val 2 \<and> (2::nat) \<noteq> 0
   \<and> update_accepted 2 (jobData leased_job (lease_update 100 ''w'' (pending_row 2 0 20))) leased_db
   \<and> (\<exists>j' db' new. moveToCancelled 150 ''stop'' leased_job leased_db = Inr (j', db')
         \<and> job_by_id db' 2 = Some new \<and> status_col new = CANCELLED)"
proof -
  have two: "(2::nat) \<noteq> 0" by simp
  have st: "status_col (lease_update 100 ''w'' (pending_row 2 0 20)) \<noteq> PENDING"
    by (simp add: lease_update_def)
  from cancel_guard_only_in_cancelJob[OF leased_facts(2), of 150 "''stop''" leased_job]
  have a: "isl (cancelJob 150 2 ''stop'' leased_db)"
    and b: "\<exists>j' db' new. moveToCancelled 150 ''stop'' leased_job leased_db = Inr (j', db')
         \<and> job_by_id db' 2 = Some new \<and> status_col new = CANCELLED"
    using st leased_accepted two by blast+
  from leased_facts(2) st a leased_accepted(1) two leased_accepted(2) b
  show ?thesis by (intro conjI)
qed


lemma done_accepted: "update_accepted 1 done_row done_db"
  by (simp add: update_accepted_def queue_exists_def custom_id_clash_def done_row_def
        done_db_def two_job_db_def pending_row_def)

text \<open>
  Claim C10, as stated, fails in one column: the update of \<open>Job.retry\<close> also sets
  \<open>updated_at\<close>, which the schema marks \<open>@updatedAt\<close>. Job 1 of \<open>done_db\<close> has \<open>updated_at = 10\<close>
  and after \<open>retry\<close> at time 300 it has \<open>updated_at = 300\<close>.
\<close>

theorem retry_touches_updated_at:
  "map_option updated_at (job_by_id done_db 1) = Some 10
   \<and> \<not> isl (retry 300 1 done_db)
   \<and> map_option updated_at (job_by_id (projr (retry 300 1 done_db)) 1) = Some 300"
proof -
  from job_update_Inr[OF done_job(2), of retry_data 300] done_accepted
  obtain db' where "job_update 300 1 retry_data done_db = Inr db'"
    "job_by_id db' 1 = Some ((retry_data done_row)\<lparr> updated_at := 300 \<rparr>)"
    by (auto simp: update_accepted_def retry_data_def custom_id_clash_def)
  then show ?thesis using done_job(2)
    by (simp add: retry_def done_row_def pending_row_def)
qed

text \<open>
  Claim C10, amended. For every job whose row exists (and whose update the table accepts),
  whatever its status, \<open>Job.retry(jobId)\<close> succeeds and the row afterwards is the row before
  with \<open>status = PENDING\<close>, \<open>failed_reason\<close>, \<open>stack_trace\<close>, \<open>lock_token\<close>, \<open>finished_on\<close> and
  \<open>exit_code\<close> \<open>NULL\<close>, and \<open>updated_at\<close> the time of the update; every other column, in
  particular \<open>attempts_made\<close>, every other row, the log and the notifications are unchanged.
\<close>

theorem retry_frame:
  assumes "job_by_id db jobId = Some old" and "update_accepted jobId old db"
  shows "\<exists>db'. retry now jobId db = Inr db'
           \<and> job_by_id db' jobId
               = Some (old\<lparr> status_col := PENDING, failed_reason := None, stack_trace := None,
                            lock_token := None, finished_on := None, exit_code := None,
                            updated_at := now \<rparr>)
           \<and> (\<forall>k. k \<noteq> jobId \<longrightarrow> job_by_id db' k = job_by_id db k)
           \<and> queue_tbl db' = queue_tbl db \<and> job_log_tbl db' = job_log_tbl db
           \<and> notifications db' = notifications db"
proof -
  have acc: "update_accepted jobId (retry_data old) db"
    using assms(2) by (simp add: update_accepted_def retry_data_def custom_id_clash_def)
  from job_update_Inr[OF assms(1), of retry_data now, OF acc retry_data_id]
  obtain db' where "job_update now jobId retry_data db = Inr db'"
    "job_by_id db' jobId = Some ((retry_data old)\<lparr> updated_at := now \<rparr>)"
    "\<forall>k. k \<noteq> jobId \<longrightarrow> job_by_id db' k = job_by_id db k"
    "queue_tbl db' = queue_tbl db" "job_log_tbl db' = job_log_tbl db"
    "notifications db' = notifications db"
    by blast
  then show ?thesis by (simp add: retry_def retry_data_def)
qed

theorem retry_frame_witness:
  "job_by_id done_db 1 = Some done_row \<and> update_accepted 1 done_row done_db
   \<and> (\<exists>db'. retry 300 1 done_db = Inr db'
         \<and> map_option (\<lambda>r. (status_col r, attempts_made r, exit_code r, finished_on r))
             (job_by_id db' 1) = Some (PENDING, 1, None, None))"
proof -
  from retry_frame[OF done_job(2) done_accepted, of 300]
  obtain db' where "retry 300 1 done_db = Inr db'"
    "job_by_id db' 1
       = Some (done_row\<lparr> status_col := PENDING, failed_reason := None, stack_trace := None,
                 lock_token := None, finished_on := None, exit_code := None,
                 updated_at := 300 \<rparr>)"
    by blast
  then have "\<exists>db'. retry 300 1 done_db = Inr db'
         \<and> map_option (\<lambda>r. (status_col r, attempts_made r, exit_code r, finished_on r))
             (job_by_id db' 1) = Some (PENDING, 1, None, None)"
    by (simp add: done_row_def)
  with done_job(2) done_accepted show ?thesis by (intro conjI)
qed

text \<open>
  What \<open>moveToFailed\<close> stores. In the retry branch the object's \<open>processedOn\<close>, \<open>finishedOn\<close>,
  \<open>failedReason\<close> and \<open>stackTrace\<close> are set to \<open>undefined\<close>, and \<open>save\<close> hands them to the
  update as they are: the four columns keep the values they had. Only \<open>lockToken\<close>, set to
  \<open>null\<close>, is cleared in the row.
\<close>

lemma moveToFailed_retry_row:
  assumes "id' j = Val i" "i \<noteq> 0" "job_by_id db i = Some old"
    and "update_accepted i (jobData j old) db"
    and "attemptsMade j < maxAttempts j"
  shows "\<exists>j' db' new. moveToFailed now e c out err j db = Inr (j', db')
           \<and> job_by_id db' i = Some new
           \<and> status_col new = PENDING \<and> lock_token new = None
           \<and> attempts_made new = attemptsMade j
           \<and> processed_on new = processed_on old \<and> finished_on new = finished_on old
           \<and> failed_reason new = failed_reason old \<and> stack_trace new = stack_trace old
           \<and> exit_code new = set_col c (exit_code old)
           \<and> processedOn j' = Undefined \<and> finishedOn j' = Undefined
           \<and> failedReason j' = Undefined \<and> stackTrace j' = Undefined
           \<and> attemptsMade j' = attemptsMade j
           \<and> notifications db' = notifications db @ [name j]"
proof -
  let ?j1 = "j\<lparr> failedReason := Val (nullish (err_message e) (error_toString e)),
                stackTrace := Val (nullish (err_stack e) (error_toString e)),
                exitCode := c, lockToken := Null, stdOut := out, stdErr := err,
                processedOn := Val now, finishedOn := Val now \<rparr>"
  let ?j2 = "?j1\<lparr> status := PENDING, finishedOn := Undefined, lockToken := Null,
                  processedOn := Undefined, failedReason := Undefined,
                  stackTrace := Undefined \<rparr>"
  have "customId ?j2 = customId j" "queueId ?j2 = queueId j" by simp_all
  from update_accepted_jobData[OF this]
  have acc: "update_accepted i (jobData ?j2 old) db"
    using assms(4) by (simp only:)
  have idj: "id' ?j2 = Val i" using assms(1) by simp
  from save_update_Inr[OF idj assms(2,3) acc, of now]
  obtain db' where sv: "save now ?j2 db = Inr (?j2\<lparr> updatedAt := Val now \<rparr>, db')"
    and row: "job_by_id db' i = Some ((jobData ?j2 old)\<lparr> updated_at := now \<rparr>)"
    and nt: "notifications db' = notifications db"
    by blast
  have sr: "shouldRetry ?j1" using assms(5) by (simp add: shouldRetry_def)
  have "moveToFailed now e c out err j db
          = (case save now ?j2 db of
               Inl x \<Rightarrow> Inl (Context (''Error moving job '' @ name j @ '' to failed: '') x, ?j2)
             | Inr (j3, db') \<Rightarrow> Inr (j3, notifyNewJob j3 db'))"
    unfolding moveToFailed_def Let_def using assms(1,2) sr by simp
  then have mf: "moveToFailed now e c out err j db
          = Inr (?j2\<lparr> updatedAt := Val now \<rparr>, notifyNewJob (?j2\<lparr> updatedAt := Val now \<rparr>) db')"
    by (simp only: sv sum.case prod.case)
  have row': "job_by_id (notifyNewJob (?j2\<lparr> updatedAt := Val now \<rparr>) db') i
                = Some ((jobData ?j2 old)\<lparr> updated_at := now \<rparr>)"
    using row by (simp add: notifyNewJob_def job_by_id_def)
  show ?thesis
    apply (rule exI[of _ "?j2\<lparr> updatedAt := Val now \<rparr>"])
    apply (rule exI[of _ "notifyNewJob (?j2\<lparr> updatedAt := Val now \<rparr>) db'"])
    apply (rule exI[of _ "(jobData ?j2 old)\<lparr> updated_at := now \<rparr>"])
    apply (simp only: mf row' simp_thms)
    apply (simp add: jobData_def notifyNewJob_def nt)
    done
qed


text \<open>
  Claim C2 at a failing input. Job 2 of \<open>leased_db\<close> was leased at time 100: it is
  \<open>RUNNING\<close> with \<open>processed_on = 100\<close>, one attempt made of two. \<open>moveToFailed\<close> with exit
  code 1 at time 200 succeeds, stores \<open>PENDING\<close> with \<open>lock_token\<close> \<open>NULL\<close> and one attempt
  made, and publishes \<open>new_job\<close>; but the stored \<open>processed_on\<close> is still 100, where the
  claim has it cleared.
\<close>

theorem moveToFailed_retry_keeps_processed_on:
  "map_option (\<lambda>r. (status_col r, processed_on r, attempts_made r, max_attempts r))
       (job_by_id leased_db 2) = Some (RUNNING, Some 100, 1, 2)
   \<and> \<not> isl (moveToFailed 200 exit_error (Val 1) (Val []) (Val []) leased_job leased_db)
   \<and> map_option (\<lambda>r. (status_col r, lock_token r, processed_on r, attempts_made r))
       (job_by_id (snd (projr (moveToFailed 200 exit_error (Val 1) (Val []) (Val [])
                                 leased_job leased_db))) 2)
       = Some (PENDING, None, Some 100, 1)
   \<and> notifications (snd (projr (moveToFailed 200 exit_error (Val 1) (Val []) (Val [])
                                   leased_job leased_db))) = [''job'']"
proof -
  have two: "(2::nat) \<noteq> 0" by simp
  have att: "attemptsMade leased_job < maxAttempts leased_job" "name leased_job = ''job''"
    unfolding leased_facts(1)
    by (simp_all add: job_of_row_def new_Job_def lease_update_def pending_row_def)
  from moveToFailed_retry_row[OF leased_accepted(1) two leased_facts(2) leased_accepted(2) att(1),
      of 200 exit_error "Val 1" "Val []" "Val []"]
  obtain j' db' new where
    "moveToFailed 200 exit_error (Val 1) (Val []) (Val []) leased_job leased_db = Inr (j', db')"
    "job_by_id db' 2 = Some new" "status_col new = PENDING" "lock_token new = None"
    "attempts_made new = attemptsMade leased_job"
    "processed_on new = processed_on (lease_update 100 ''w'' (pending_row 2 0 20))"
    "notifications db' = notifications leased_db @ [name leased_job]"
    by blast
  then show ?thesis
    unfolding leased_facts(2,5) att(2)
    by (simp add: leased_facts(1) job_of_row_def new_Job_def lease_update_def pending_row_def)
qed

section \<open>Verification: the remote executor and the worker\<close>

lemma join_space_snoc:
  "xs \<noteq> [] \<Longrightarrow> join '' '' xs @ '' '' = concat (map (\<lambda>x. x @ '' '') xs)"
  by (induction "'' ''" xs rule: join.induct) simp_all

lemma join_nonempty:
  "xs \<noteq> [] \<Longrightarrow> \<forall>x \<in> set xs. x \<noteq> [] \<Longrightarrow> join sep xs \<noteq> []"
  by (induction sep xs rule: join.induct) simp_all

lemma env_prefix:
  "(if envString cfg \<noteq> [] then envString cfg @ '' '' else [])
     = env_exports (nullish (cfg_env cfg) [])"
proof (cases "cfg_env cfg")
  case (Val entries)
  let ?f = "\<lambda>(k, v). ''export '' @ k @ ''='' @ [dquote_char] @ v @ [dquote_char] @ '';''"
  show ?thesis
  proof (cases "entries = []")
    case True
    with Val show ?thesis by (simp add: envString_def env_exports_def)
  next
    case False
    then have ne: "map ?f entries \<noteq> []" by simp
    have "\<forall>x \<in> set (map ?f entries). x \<noteq> []" by auto
    then have "join '' '' (map ?f entries) \<noteq> []" using join_nonempty[OF ne] by blast
    moreover have "join '' '' (map ?f entries) @ '' ''
                     = concat (map (\<lambda>x. x @ '' '') (map ?f entries))"
      using join_space_snoc[OF ne] .
    moreover have "concat (map (\<lambda>x. x @ '' '') (map ?f entries)) = env_exports entries"
      unfolding env_exports_def map_map
      by (rule arg_cong[of _ _ concat], rule map_cong) auto
    ultimately show ?thesis using Val by (simp add: envString_def)
  qed
qed (simp_all add: envString_def env_exports_def)

lemma echo_job_fields: "command echo_job = ''echo hi''" "args echo_job = Val []"
  "workingDir echo_job = Null" "id' echo_job = Val 1" "timeout echo_job = Null"
  by (simp_all add: echo_job_def job_of_row_def new_Job_def pending_row_def)

lemma shellescape_echo_hi:
  "shellescape [''echo hi''] = [quote_char] @ ''echo hi'' @ [quote_char]"
  by (simp add: shellescape_def shellescape_arg_def shell_safe_char_def quote_char_def
        backslash_char_def)

text \<open>
  Claim C8, as stated, fails for a job without arguments: \<open>buildCommand\<close> returns the command
  as it is. For the command \<open>echo hi\<close> and no arguments the string sent is \<open>echo hi\<close>, while
  the shell-escaped list \<open>[command]\<close> is \<open>'echo hi'\<close>.
\<close>

theorem executeJob_sends_command_unescaped:
  "args echo_job = Val []
   \<and> commandWithEnv shellescape plain_config echo_job = ''echo hi''
   \<and> envString plain_config @ shellescape (command echo_job # nullish (args echo_job) [])
       = [quote_char] @ ''echo hi'' @ [quote_char]
   \<and> commandWithEnv shellescape plain_config echo_job
       \<noteq> envString plain_config @ shellescape (command echo_job # nullish (args echo_job) [])"
  by (simp add: echo_job_fields commandWithEnv_def buildCommand_def envString_def
        plain_config_def shellescape_echo_hi quote_char_def)


text \<open>
  Claim C8, amended. \<open>executeJob\<close> consults the SSH layer only at the command string and the
  cwd it builds. The command string is one \<open>export KEY="VALUE"; \<close> for each entry of the
  environment map, followed by the shell-escaped list \<open>[command, ...args]\<close> when the job has
  at least one argument, and by the command itself, not escaped, when \<open>args\<close> is empty or
  absent. The cwd is \<open>job.workingDir || config.workingDir || "/tmp"\<close>. The escaping function
  is arbitrary here.
\<close>

theorem executeJob_command_string:
  assumes "ssh (commandWithEnv esc cfg j) (cwd_of cfg j) = ssh' (commandWithEnv esc cfg j) (cwd_of cfg j)"
  shows "executeJob esc cfg ssh j db = executeJob esc cfg ssh' j db
         \<and> commandWithEnv esc cfg j
             = env_exports (nullish (cfg_env cfg) [])
               @ (case args j of Val (a # as) \<Rightarrow> esc (command j # a # as) | _ \<Rightarrow> command j)
         \<and> cwd_of cfg j
             = (if truthy_str (workingDir j) then workingDir j
                else if truthy_str (cfg_workingDir cfg) then cfg_workingDir cfg
                else Val ''/tmp'')"
proof (intro conjI)
  show "executeJob esc cfg ssh j db = executeJob esc cfg ssh' j db"
    unfolding executeJob_def using assms by simp
  have "commandWithEnv esc cfg j
          = (if envString cfg \<noteq> [] then envString cfg @ '' '' else []) @ buildCommand esc j"
    by (simp add: commandWithEnv_def Let_def)
  then show "commandWithEnv esc cfg j
             = env_exports (nullish (cfg_env cfg) [])
               @ (case args j of Val (a # as) \<Rightarrow> esc (command j # a # as) | _ \<Rightarrow> command j)"
    unfolding env_prefix by (simp add: buildCommand_def)
  show "cwd_of cfg j
             = (if truthy_str (workingDir j) then workingDir j
                else if truthy_str (cfg_workingDir cfg) then cfg_workingDir cfg
                else Val ''/tmp'')"
    by (simp add: cwd_of_def or_js_def)
qed

theorem executeJob_command_string_witness:
  "(\<lambda>c d. signalled_run) (commandWithEnv shellescape path_config args_job)
       (cwd_of path_config args_job)
     = (\<lambda>c d. signalled_run) (commandWithEnv shellescape path_config args_job)
         (cwd_of path_config args_job)
   \<and> commandWithEnv shellescape path_config args_job
       = ''export A='' @ [dquote_char] @ ''1'' @ [dquote_char] @ ''; export B=''
         @ [dquote_char] @ ''2'' @ [dquote_char] @ ''; echo '' @ [quote_char] @ ''a b''
         @ [quote_char] @ '' c''
   \<and> cwd_of path_config args_job = Val ''/srv''"
proof -
  have f: "command args_job = ''echo''" "args args_job = Val [''a b'', ''c'']"
    "workingDir args_job = Null"
    by (simp_all add: args_job_def job_of_row_def new_Job_def pending_row_def)
  have e: "shellescape [''echo'', ''a b'', ''c''] = ''echo '' @ [quote_char] @ ''a b'' @ [quote_char] @ '' c''"
    by (simp add: shellescape_def shellescape_arg_def shell_safe_char_def quote_char_def
        backslash_char_def)
  have p: "env_exports (nullish (cfg_env path_config) [])
             = ''export A='' @ [dquote_char] @ ''1'' @ [dquote_char] @ ''; export B=''
               @ [dquote_char] @ ''2'' @ [dquote_char] @ ''; ''"
    by (simp add: env_exports_def path_config_def)
  from executeJob_command_string[of "\<lambda>c d. signalled_run" shellescape path_config args_job
        "\<lambda>c d. signalled_run", OF refl]
  have "commandWithEnv shellescape path_config args_job
          = env_exports (nullish (cfg_env path_config) [])
            @ (case args args_job of Val (a # as) \<Rightarrow> shellescape (command args_job # a # as)
               | _ \<Rightarrow> command args_job)"
    and "cwd_of path_config args_job
          = (if truthy_str (workingDir args_job) then workingDir args_job
             else if truthy_str (cfg_workingDir path_config) then cfg_workingDir path_config
             else Val ''/tmp'')"
    by blast+
  then show ?thesis unfolding f p by (simp add: e path_config_def)
qed













end
